theory Spec2Isabelle
  imports
    Main
    "HOL-Library.Product_Lexorder"
    "HOL-Library.Option_ord"
    "HOL-Library.Multiset"
begin

section \<open>Python strings and numbers\<close>

text \<open>
  A Python \<open>str\<close> is a sequence of code points. The model uses HOL strings and reads
  each \<^typ>\<open>char\<close> as the code point of the same number, so the strings of the model
  are the Python strings over the code points 0..255.
\<close>

definition code_point :: "char \<Rightarrow> nat" where
  "code_point c = of_char c"

definition ascii_digit :: "char \<Rightarrow> bool" where
  \<comment> \<open>the decimal digits (category Nd) below 256: what \<open>\d\<close> matches and \<open>int()\<close> reads\<close>
  "ascii_digit c = (48 \<le> code_point c \<and> code_point c \<le> 57)"

definition isdigit_char :: "char \<Rightarrow> bool" where
  \<comment> \<open>\<open>str.isdigit\<close> also holds of the superscripts two, three and one (U+00B2, U+00B3, U+00B9)\<close>
  "isdigit_char c = (ascii_digit c \<or> code_point c = 178 \<or> code_point c = 179 \<or> code_point c = 185)"

definition isdigit :: "string \<Rightarrow> bool" where
  \<comment> \<open>\<open>s.isdigit()\<close>: at least one character, every character a digit\<close>
  "isdigit s = (s \<noteq> [] \<and> list_all isdigit_char s)"

datatype exn =
    ValueError
  | OverflowError
  | IntegrityError
  | InvalidEmailError
  | InvalidPhoneError
  | InvalidSpeedError
  | InvalidSubscriptionDateError
  | AttributeError

definition digit_value :: "char \<Rightarrow> int" where
  "digit_value c = int (code_point c) - 48"

definition py_int :: "string \<Rightarrow> exn + int" where
  \<comment> \<open>\<open>int(s)\<close> on a string that passed \<open>isdigit()\<close>, the only way the helpers call it:
      base 10 when every character is a decimal digit, ValueError on a superscript\<close>
  "py_int s =
     (if s \<noteq> [] \<and> list_all ascii_digit s
      then Inr (foldl (\<lambda>a c. 10 * a + digit_value c) 0 s)
      else Inl ValueError)"

definition digit_char :: "nat \<Rightarrow> char" where
  "digit_char n = ''0123456789'' ! n"

function decimal :: "int \<Rightarrow> string" where
  \<comment> \<open>the decimal digits of a non-negative integer, most significant first\<close>
  "decimal n = (if n < 10 then [digit_char (nat n)] else decimal (n div 10) @ [digit_char (nat (n mod 10))])"
  by pat_completeness auto
termination
  by (relation "measure nat") auto

declare decimal.simps [simp del]

definition py_str :: "int \<Rightarrow> string" where
  \<comment> \<open>\<open>str(n)\<close> of an integer: decimal, no leading zero, a minus sign when negative\<close>
  "py_str n = (if n < 0 then CHR ''-'' # decimal (- n) else decimal n)"

definition isspace_char :: "char \<Rightarrow> bool" where
  \<comment> \<open>\<open>str.isspace\<close> below 256, which is also what \<open>\s\<close> matches and \<open>strip()\<close> removes\<close>
  "isspace_char c =
     ((9 \<le> code_point c \<and> code_point c \<le> 13) \<or> (28 \<le> code_point c \<and> code_point c \<le> 32)
      \<or> code_point c = 133 \<or> code_point c = 160)"

definition strip :: "string \<Rightarrow> string" where
  "strip s = rev (dropWhile isspace_char (rev (dropWhile isspace_char s)))"

definition lower_char :: "char \<Rightarrow> char" where
  \<comment> \<open>\<open>str.lower\<close> on one code point below 256: A-Z and the accented capitals
      U+00C0..U+00DE (the multiplication sign U+00D7 apart) move up by 32\<close>
  "lower_char c =
     (if (65 \<le> code_point c \<and> code_point c \<le> 90)
         \<or> (192 \<le> code_point c \<and> code_point c \<le> 222 \<and> code_point c \<noteq> 215)
      then char_of (code_point c + 32) else c)"

definition lower :: "string \<Rightarrow> string" where
  "lower s = map lower_char s"


section \<open>Soft validation (error lists)\<close>

text \<open>
  \<^verbatim>\<open>
  def validate_customer_data(name, email, router_id):
      errors = []
      if not name:
          errors.append("Name is required")
      if not email or "@" not in email:
          errors.append("Valid email is required")
      if not router_id.isdigit() or len(router_id) != 10:
          errors.append("Router ID must be 10 digits")
      return errors
  \<close>
\<close>

definition validate_customer_data :: "string \<Rightarrow> string \<Rightarrow> string \<Rightarrow> string list" where
  "validate_customer_data name email router_id =
     (if name = [] then [''Name is required''] else []) @
     (if email = [] \<or> CHR ''@'' \<notin> set email then [''Valid email is required''] else []) @
     (if \<not> isdigit router_id \<or> length router_id \<noteq> 10 then [''Router ID must be 10 digits''] else [])"

text \<open>
  \<^verbatim>\<open>float(price)\<close> is modelled on the inputs whose result needs no floating-point
  reasoning: the empty string raises ValueError, and a non-empty string of decimal digits
  denotes that integer. Rounding to the nearest double is monotone and leaves 2000 and
  100000 fixed, so for such an integer the comparisons with the two bounds come out on the
  double as they do on the integer (also when the double is infinite). Every other string
  (signs, fractions, exponents, blanks, \<open>inf\<close>, \<open>nan\<close>) is outside the modelled fragment.
\<close>

datatype float_result = FloatOf int | FloatValueError | FloatUnmodelled

definition py_float :: "string \<Rightarrow> float_result" where
  "py_float s =
     (if s = [] then FloatValueError
      else if list_all ascii_digit s then FloatOf (foldl (\<lambda>a c. 10 * a + digit_value c) 0 s)
      else FloatUnmodelled)"

text \<open>
  \<^verbatim>\<open>
  def validate_plan_data(name, speed, price):
      errors = []
      if not name:
          errors.append("Plan name is required")
      if not speed:
          errors.append("Speed description is required")
      try:
          price = float(price)
          if not (2000 <= price <= 100000):
              errors.append("Price must be between KES 2000-100000")
      except ValueError:
          errors.append("Invalid price format")
      return errors
  \<close>
  The result is \<open>None\<close> exactly when the price is outside the modelled fragment of
  \<open>float()\<close>.
\<close>

definition validate_plan_data :: "string \<Rightarrow> string \<Rightarrow> string \<Rightarrow> string list option" where
  "validate_plan_data name speed price =
     (let errors = (if name = [] then [''Plan name is required''] else []) @
                   (if speed = [] then [''Speed description is required''] else [])
      in case py_float price of
           FloatOf p \<Rightarrow>
             Some (errors @ (if \<not> (2000 \<le> p \<and> p \<le> 100000)
                             then [''Price must be between KES 2000-100000''] else []))
         | FloatValueError \<Rightarrow> Some (errors @ [''Invalid price format''])
         | FloatUnmodelled \<Rightarrow> None)"

text \<open>
  \<^verbatim>\<open>
  def validate_subscription_input(customer_id, plan_id, duration):
      errors = []
      if not customer_id.isdigit():
          errors.append("Customer ID must be a number")
      if not plan_id.isdigit():
          errors.append("Plan ID must be a number")
      if not duration.isdigit() or int(duration) < 1:
          errors.append("Duration must be at least 1 month")
      return errors
  \<close>
  \<open>int(duration)\<close> is evaluated only when \<open>duration.isdigit()\<close> holds; on a superscript
  digit it raises ValueError, which nothing here catches.
\<close>

definition validate_subscription_input :: "string \<Rightarrow> string \<Rightarrow> string \<Rightarrow> exn + string list" where
  "validate_subscription_input customer_id plan_id duration =
     (let errors = (if \<not> isdigit customer_id then [''Customer ID must be a number''] else []) @
                   (if \<not> isdigit plan_id then [''Plan ID must be a number''] else [])
      in if \<not> isdigit duration then Inr (errors @ [''Duration must be at least 1 month''])
         else case py_int duration of
                Inl e \<Rightarrow> Inl e
              | Inr n \<Rightarrow> Inr (errors @ (if n < 1 then [''Duration must be at least 1 month''] else [])))"


section \<open>Entity-level validation (raising)\<close>

text \<open>
  \<^verbatim>\<open>
  @validates('speed')
  def validate_speed(self, key, speed):
      if not re.match(r'^\d+\s?(Mbps|Gbps)$', speed, re.IGNORECASE):
          raise InvalidSpeedError("Speed must be like '10 Mbps' or '1 Gbps'")
      return speed.strip()
  \<close>
  The pattern is matched by hand. The character classes of its three parts are disjoint,
  so the greedy \<open>\d+\<close> takes every leading digit and \<open>\s?\<close> takes the next character
  exactly when it is a blank; \<open>$\<close> matches at the end and before one final newline.
\<close>

definition speed_pattern :: "string \<Rightarrow> bool" where
  "speed_pattern s =
     (let digits = takeWhile ascii_digit s;
          rest = dropWhile ascii_digit s;
          rest' = (case rest of [] \<Rightarrow> [] | c # cs \<Rightarrow> if isspace_char c then cs else rest);
          unit = lower (take 4 rest');
          tail = drop 4 rest'
      in digits \<noteq> [] \<and> (unit = ''mbps'' \<or> unit = ''gbps'') \<and> (tail = [] \<or> tail = [CHR 0x0A]))"

definition validate_speed :: "string \<Rightarrow> exn + string" where
  "validate_speed speed = (if \<not> speed_pattern speed then Inl InvalidSpeedError else Inr (strip speed))"


text \<open>
  \<^verbatim>\<open>
  @validates('email')
  def validate_email(self, key, email):
      if not re.match(r'^[^@]+@[^@]+\.[^@]+$', email):
          raise InvalidEmailError("Invalid email format")
      return email.lower().strip()
  \<close>
  The pattern asks for a non-empty local part without at-sign, one at-sign, and a rest
  without at-sign that has a dot which is neither its first nor its last character (a
  negated class also matches a newline, so the case of \<open>$\<close> before a final newline is
  included).
\<close>

definition email_pattern :: "string \<Rightarrow> bool" where
  "email_pattern s =
     (case dropWhile (\<lambda>c. c \<noteq> CHR ''@'') s of
        [] \<Rightarrow> False
      | at # domain \<Rightarrow>
          takeWhile (\<lambda>c. c \<noteq> CHR ''@'') s \<noteq> [] \<and> CHR ''@'' \<notin> set domain \<and>
          CHR ''.'' \<in> set (butlast (tl domain)))"

definition validate_email :: "string \<Rightarrow> exn + string" where
  "validate_email email = (if \<not> email_pattern email then Inl InvalidEmailError else Inr (strip (lower email)))"

text \<open>
  \<^verbatim>\<open>
  @validates('phone')
  def validate_phone(self, key, phone):
      if not phone:
          return None
      cleaned = re.sub(r'[^\d+]', '', phone)
      if cleaned.startswith('0') and len(cleaned) == 10:
          cleaned = '+254' + cleaned[1:]
      if not re.match(r'^\+2547[0-247-9]\d{7}$', cleaned):
          raise InvalidPhoneError("Invalid Kenyan phone. Use +2547XXXXXXXX or 07XXXXXXXX")
      return cleaned
  \<close>
  The class \<open>[0-247-9]\<close> is the digits 0, 1, 2, 4, 7, 8 and 9.
\<close>

definition phone_pattern :: "string \<Rightarrow> bool" where
  "phone_pattern s =
     (take 5 s = ''+2547'' \<and>
      (case drop 5 s of
         [] \<Rightarrow> False
       | c # rest \<Rightarrow>
           c \<in> set ''0124789'' \<and> length (take 7 rest) = 7 \<and> list_all ascii_digit (take 7 rest) \<and>
           (drop 7 rest = [] \<or> drop 7 rest = [CHR 0x0A])))"

definition validate_phone :: "string option \<Rightarrow> exn + string option" where
  "validate_phone phone =
     (case phone of
        None \<Rightarrow> Inr None
      | Some p \<Rightarrow>
          if p = [] then Inr None
          else
            let cleaned = filter (\<lambda>c. ascii_digit c \<or> c = CHR ''+'') p;
                cleaned = (if take 1 cleaned = ''0'' \<and> length cleaned = 10
                           then ''+254'' @ drop 1 cleaned else cleaned)
            in if \<not> phone_pattern cleaned then Inl InvalidPhoneError else Inr (Some cleaned))"


text \<open>
  The two shapes of an accepted phone number, stated on the input with every character
  other than a decimal digit or a plus sign removed: the local form (07, one of the digits
  0, 1, 2, 4, 7, 8, 9, and seven digits) and the international form (+2547, one of those
  digits, and seven digits).
\<close>

definition local_form :: "string \<Rightarrow> bool" where
  "local_form c =
     (length c = 10 \<and> take 2 c = ''07'' \<and> c ! 2 \<in> set ''0124789'' \<and> list_all ascii_digit (drop 3 c))"

definition international_form :: "string \<Rightarrow> bool" where
  "international_form c =
     (length c = 13 \<and> take 5 c = ''+2547'' \<and> c ! 5 \<in> set ''0124789'' \<and> list_all ascii_digit (drop 6 c))"


section \<open>Calendar dates\<close>

text \<open>
  A \<open>datetime.date\<close> is a triple (year, month, day); the lexicographic order of the
  triples is the chronological order. A \<open>datetime.datetime\<close> is a date with the
  microsecond of the day. A date compared with a timestamp column stands for its midnight.
\<close>

type_synonym date = "int \<times> int \<times> int"
type_synonym datetime = "date \<times> int"

definition midnight :: "date \<Rightarrow> datetime" where
  "midnight d = (d, 0)"

definition isleap :: "int \<Rightarrow> bool" where
  "isleap y = (y mod 4 = 0 \<and> (y mod 100 \<noteq> 0 \<or> y mod 400 = 0))"

definition days_in_month :: "int \<Rightarrow> int \<Rightarrow> int" where
  \<comment> \<open>\<open>calendar.monthrange(year, month)[1]\<close>, for a month in 1..12\<close>
  "days_in_month y m =
     (if m = 2 then (if isleap y then 29 else 28)
      else if m = 4 \<or> m = 6 \<or> m = 9 \<or> m = 11 then 30 else 31)"

definition valid_date :: "date \<Rightarrow> bool" where
  \<comment> \<open>the values of \<open>datetime.date\<close>: years 1 (MINYEAR) to 9999 (MAXYEAR)\<close>
  "valid_date dt =
     (case dt of (y, m, d) \<Rightarrow>
        1 \<le> y \<and> y \<le> 9999 \<and> 1 \<le> m \<and> m \<le> 12 \<and> 1 \<le> d \<and> d \<le> days_in_month y m)"

definition date_replace :: "int \<Rightarrow> int \<Rightarrow> int \<Rightarrow> exn + date" where
  \<comment> \<open>\<open>dt.replace(year=y, month=m, day=d)\<close>: ValueError when the fields are not a date\<close>
  "date_replace y m d = (if valid_date (y, m, d) then Inr (y, m, d) else Inl ValueError)"

text \<open>
  \<open>relativedelta(months=n)\<close> normalises itself when it is built: beyond 11 months the
  whole years are moved into \<open>years\<close>, with the sign of \<open>n\<close>.
\<close>

definition relativedelta_months :: "int \<Rightarrow> int \<times> int" where
  "relativedelta_months n =
     (if abs n > 11
      then (let s = (if n < 0 then - 1 else 1) in ((abs n div 12) * s, (abs n mod 12) * s))
      else (0, n))"

text \<open>
  \<open>dt + relativedelta(months=n)\<close>: add the years, add the months with one carry into the
  year, cut the day down to the length of the month reached, and build the date, which
  raises ValueError outside the years 1..9999.
\<close>

definition add_months :: "date \<Rightarrow> int \<Rightarrow> exn + date" where
  "add_months dt n =
     (case dt of (y, m, d) \<Rightarrow>
        (case relativedelta_months n of (years, months) \<Rightarrow>
           (case (if months \<noteq> 0
                  then (if m + months > 12 then (y + years + 1, m + months - 12)
                        else if m + months < 1 then (y + years - 1, m + months + 12)
                        else (y + years, m + months))
                  else (y + years, m)) of
              (year, month) \<Rightarrow> date_replace year month (min (days_in_month year month) d))))"

definition next_day :: "date \<Rightarrow> date" where
  "next_day dt =
     (case dt of (y, m, d) \<Rightarrow>
        if d < days_in_month y m then (y, m, d + 1)
        else if m < 12 then (y, m + 1, 1)
        else (y + 1, 1, 1))"

definition add_days :: "date \<Rightarrow> nat \<Rightarrow> exn + date" where
  \<comment> \<open>\<open>dt + relativedelta(days=n)\<close>, that is \<open>dt + timedelta(days=n)\<close>: OverflowError past 9999-12-31\<close>
  "add_days dt n = (let r = (next_day ^^ n) dt in if valid_date r then Inr r else Inl OverflowError)"

definition day_of :: "date \<Rightarrow> int" where
  "day_of dt = snd (snd dt)"

text \<open>
  The date a whole number of calendar months after a date, by arithmetic on the month count:
  months are counted from year 0, the day is kept, and it is cut down to the last day of
  the month reached when that month is shorter.
\<close>

definition months_after :: "date \<Rightarrow> int \<Rightarrow> date" where
  "months_after dt n =
     (case dt of (y, m, d) \<Rightarrow>
        (let t = 12 * y + (m - 1) + n; y' = t div 12; m' = t mod 12 + 1
         in (y', m', min d (days_in_month y' m'))))"


section \<open>The store\<close>

text \<open>
  The three tables, with the columns of the mapped classes. A nullable column is an
  option. \<open>sqlite_autoincrement\<close> keeps, for each table, the largest key given out so far.
\<close>

record customer =
  c_id :: int
  c_router_id :: int
  c_name :: string
  c_email :: string
  c_phone :: "string option"
  c_address :: "string option"
  c_created_at :: datetime
  c_updated_at :: "datetime option"

record plan =
  p_id :: int
  p_name :: string
  p_description :: "string option"
  p_price :: int
  p_speed :: string
  p_duration_months :: "int option"
  p_created_at :: datetime
  p_updated_at :: "datetime option"

record subscription =
  sub_id :: int
  customer_id :: "int option"
  plan_id :: "int option"
  router_id :: int
  start_date :: "date option"
  end_date :: "date option"
  status :: "string option"
  created_at :: datetime
  updated_at :: "datetime option"
  last_reminder_sent :: "datetime option"

record db =
  customers :: "customer list"
  plans :: "plan list"
  subscriptions :: "subscription list"
  customer_seq :: int
  plan_seq :: int
  subscription_seq :: int

definition get_customer :: "db \<Rightarrow> int \<Rightarrow> customer option" where
  \<comment> \<open>\<open>db.get(Customer, i)\<close>\<close>
  "get_customer d i = find (\<lambda>c. c_id c = i) (customers d)"

definition get_plan :: "db \<Rightarrow> int \<Rightarrow> plan option" where
  "get_plan d i = find (\<lambda>p. p_id p = i) (plans d)"

definition get_subscription :: "db \<Rightarrow> int \<Rightarrow> subscription option" where
  "get_subscription d i = find (\<lambda>s. sub_id s = i) (subscriptions d)"

definition sub_customer :: "db \<Rightarrow> subscription \<Rightarrow> customer option" where
  \<comment> \<open>the relationship \<open>sub.customer\<close>\<close>
  "sub_customer d s = (case customer_id s of None \<Rightarrow> None | Some i \<Rightarrow> get_customer d i)"

definition sub_plan :: "db \<Rightarrow> subscription \<Rightarrow> plan option" where
  \<comment> \<open>the relationship \<open>sub.plan\<close>\<close>
  "sub_plan d s = (case plan_id s of None \<Rightarrow> None | Some i \<Rightarrow> get_plan d i)"

definition put_subscription :: "db \<Rightarrow> subscription \<Rightarrow> db" where
  \<comment> \<open>the UPDATE of one row, found by its primary key\<close>
  "put_subscription d s' =
     d\<lparr>subscriptions := map (\<lambda>s. if sub_id s = sub_id s' then s' else s) (subscriptions d)\<rparr>"

definition next_key :: "int \<Rightarrow> int list \<Rightarrow> int" where
  \<comment> \<open>AUTOINCREMENT: one more than the largest key in the table or given out before\<close>
  "next_key seq keys = fold max keys seq + 1"

definition valid_statuses :: "string list" where
  "valid_statuses = [''active'', ''suspended'', ''terminated'', ''expired'']"

text \<open>
  What the schema checks when a subscription row is inserted: the three CHECK constraints
  (a CHECK passes on NULL), the unique index on \<open>router_id\<close>, and the two foreign keys.
\<close>

definition subscription_constraints :: "db \<Rightarrow> subscription \<Rightarrow> bool" where
  "subscription_constraints d s =
     ((case (start_date s, end_date s) of (Some b, Some e) \<Rightarrow> b \<le> e | _ \<Rightarrow> True) \<and>
      (case status s of None \<Rightarrow> True | Some st \<Rightarrow> st \<in> set valid_statuses) \<and>
      1000000000 \<le> router_id s \<and> router_id s \<le> 9999999999 \<and>
      router_id s \<notin> set (map router_id (subscriptions d)) \<and>
      (case customer_id s of None \<Rightarrow> True | Some i \<Rightarrow> get_customer d i \<noteq> None) \<and>
      (case plan_id s of None \<Rightarrow> True | Some i \<Rightarrow> get_plan d i \<noteq> None))"

definition customer_constraints :: "db \<Rightarrow> customer \<Rightarrow> bool" where
  \<comment> \<open>the unique indexes on \<open>email\<close> and \<open>router_id\<close>\<close>
  "customer_constraints d c =
     (c_email c \<notin> set (map c_email (customers d)) \<and>
      c_router_id c \<notin> set (map c_router_id (customers d)))"

text \<open>
  The state of a store that the schema maintains: primary keys are unique, and every
  subscription has its customer and its plan.
\<close>

definition db_ok :: "db \<Rightarrow> bool" where
  "db_ok d =
     (distinct (map sub_id (subscriptions d)) \<and>
      list_all (\<lambda>s. sub_customer d s \<noteq> None \<and> sub_plan d s \<noteq> None) (subscriptions d))"


section \<open>SQL conditions\<close>

text \<open>
  A condition of a WHERE clause has three values; \<open>None\<close> is SQL's unknown, the value of a
  comparison with NULL. A row is selected when the condition is true.
\<close>

type_synonym sql_bool = "bool option"

definition sql_eq :: "'a option \<Rightarrow> 'a \<Rightarrow> sql_bool" where
  "sql_eq col v = map_option (\<lambda>x. x = v) col"

definition sql_lt :: "('a::linorder) option \<Rightarrow> 'a \<Rightarrow> sql_bool" where
  "sql_lt col v = map_option (\<lambda>x. x < v) col"

definition sql_ge :: "('a::linorder) option \<Rightarrow> 'a \<Rightarrow> sql_bool" where
  "sql_ge col v = map_option (\<lambda>x. v \<le> x) col"

definition sql_is_null :: "'a option \<Rightarrow> sql_bool" where
  "sql_is_null col = Some (col = None)"

fun sql_and :: "sql_bool \<Rightarrow> sql_bool \<Rightarrow> sql_bool" where
  "sql_and (Some False) b = Some False"
| "sql_and a (Some False) = Some False"
| "sql_and (Some True) (Some True) = Some True"
| "sql_and a b = None"

fun sql_or :: "sql_bool \<Rightarrow> sql_bool \<Rightarrow> sql_bool" where
  "sql_or (Some True) b = Some True"
| "sql_or a (Some True) = Some True"
| "sql_or (Some False) (Some False) = Some False"
| "sql_or a b = None"

definition sql_between :: "('a::linorder) option \<Rightarrow> 'a \<Rightarrow> 'a \<Rightarrow> sql_bool" where
  \<comment> \<open>\<open>col BETWEEN lo AND hi\<close> is \<open>col >= lo AND col <= hi\<close>\<close>
  "sql_between col lo hi = sql_and (sql_ge col lo) (map_option (\<lambda>x. x \<le> hi) col)"

definition selected :: "sql_bool \<Rightarrow> bool" where
  "selected b = (b = Some True)"


section \<open>Operations\<close>

text \<open>
  A helper reads its answers with \<open>input(...).strip()\<close>, prints, and returns nothing. In
  the model a helper takes the store, the clock readings and the stripped answers, and
  returns what it reported together with the store after it. \<open>Inl e\<close> is an exception
  that leaves the helper; the menu loop then rolls the session back, so the store stays
  as it was.
\<close>

datatype outcome =
    Success
  | ValidationErrors "string list"
  | OperationError exn
  | NoCustomersAvailable
  | NoPlansAvailable
  | CustomerNotFound
  | PlanNotFound
  | SubscriptionNotFound
  | InvalidPlanID
  | CannotDeletePlanHasSubscriptions
  | DeletionCancelled
  | InvalidChoice
  | CannotExtendNoEndDate
  | MustExtendAtLeastOneMonth
  | NoRemindersNeeded

subsection \<open>Customers\<close>

text \<open>
  \<^verbatim>\<open>
  def create_customer(db):
      name = input("Full Name: ").strip()
      email = input("Email: ").strip()
      phone = input("Phone (optional): ").strip() or None
      address = input("Address: ").strip()
      router_id = input("Router ID (10 digits): ").strip()
      errors = validate_customer_data(name, email, router_id)
      if errors:
          ...
          return
      try:
          customer = Customer(name=name, email=email, phone=phone, address=address,
                              router_id=int(router_id), created_at=datetime.now())
          db.add(customer)
          db.commit()
      except Exception as e:
          db.rollback()
  \<close>
  The arguments of the constructor are evaluated first, then the validated attributes are
  set in the order written. \<open>router_id\<close> is an Integer column.
\<close>

definition create_customer ::
  "db \<Rightarrow> datetime \<Rightarrow> string \<Rightarrow> string \<Rightarrow> string \<Rightarrow> string \<Rightarrow> string \<Rightarrow> outcome \<times> db" where
  "create_customer d now name email phone_in address router_id_in =
     (let phone = (if phone_in = [] then None else Some phone_in);
          errors = validate_customer_data name email router_id_in
      in if errors \<noteq> [] then (ValidationErrors errors, d)
         else
           (case py_int router_id_in of
              Inl e \<Rightarrow> (OperationError e, d)
            | Inr rid \<Rightarrow>
                (case validate_email email of
                   Inl e \<Rightarrow> (OperationError e, d)
                 | Inr email' \<Rightarrow>
                     (case validate_phone phone of
                        Inl e \<Rightarrow> (OperationError e, d)
                      | Inr phone' \<Rightarrow>
                          (let c = \<lparr>c_id = next_key (customer_seq d) (map c_id (customers d)),
                                    c_router_id = rid, c_name = name, c_email = email',
                                    c_phone = phone', c_address = Some address,
                                    c_created_at = now, c_updated_at = None\<rparr>
                           in if customer_constraints d c
                              then (Success, d\<lparr>customers := customers d @ [c], customer_seq := c_id c\<rparr>)
                              else (OperationError IntegrityError, d))))))"

definition stored_router_id_text :: "db \<Rightarrow> int \<Rightarrow> string option" where
  \<comment> \<open>\<open>str(customer.router_id)\<close> of the customer with the given key, as \<open>update_customer\<close> reads it\<close>
  "stored_router_id_text d i = map_option (\<lambda>c. py_str (c_router_id c)) (get_customer d i)"

subsection \<open>Plans\<close>

text \<open>
  \<open>Plan.subscriptions\<close> is declared with \<open>lazy="dynamic"\<close>, so the attribute is not a list
  but a query object (an \<open>AppenderQuery\<close>) over the plan's subscription rows. The class
  defines neither \<open>__bool__\<close> nor \<open>__len__\<close>, so Python's truth test of such an object is
  true whatever rows the query would return.
\<close>

datatype 'a dynamic = AppenderQuery "'a list"

fun truth :: "'a dynamic \<Rightarrow> bool" where
  "truth (AppenderQuery rows) = True"

definition plan_subscriptions :: "db \<Rightarrow> plan \<Rightarrow> subscription dynamic" where
  "plan_subscriptions d p = AppenderQuery (filter (\<lambda>s. plan_id s = Some (p_id p)) (subscriptions d))"

text \<open>
  \<^verbatim>\<open>
  def delete_plan(db):
      list_plans(db, False)
      plan_id = input("\nEnter Plan ID to delete: ").strip()
      plan = db.get(Plan, int(plan_id)) if plan_id.isdigit() else None
      if not plan:
          print("Invalid Plan ID")
          return
      if plan.subscriptions:
          print("Cannot delete - plan has active subscriptions")
          return
      confirm = input(...).strip().lower()
      if confirm != 'y':
          print("Deletion cancelled")
          return
      try:
          db.delete(plan)
          db.commit()
      except Exception as e:
          db.rollback()
  \<close>
  \<open>confirm\<close> is the answer stripped and in lower case. The deletion itself is written for
  a plan without subscription rows, the only case the guard is meant to let through.
\<close>

definition delete_plan :: "db \<Rightarrow> string \<Rightarrow> string \<Rightarrow> exn + outcome \<times> db" where
  "delete_plan d plan_id_in confirm =
     (if \<not> isdigit plan_id_in then Inr (InvalidPlanID, d)
      else
        (case py_int plan_id_in of
           Inl e \<Rightarrow> Inl e
         | Inr i \<Rightarrow>
             (case get_plan d i of
                None \<Rightarrow> Inr (InvalidPlanID, d)
              | Some plan \<Rightarrow>
                  if truth (plan_subscriptions d plan) then Inr (CannotDeletePlanHasSubscriptions, d)
                  else if confirm \<noteq> ''y'' then Inr (DeletionCancelled, d)
                  else Inr (Success, d\<lparr>plans := filter (\<lambda>p. p_id p \<noteq> p_id plan) (plans d)\<rparr>))))"

subsection \<open>Subscriptions\<close>

text \<open>
  \<^verbatim>\<open>
  @validates('start_date')
  def validate_start_date(self, key, start_date):
      if start_date < datetime.date.today():
          raise InvalidSubscriptionDateError("Start date cannot be in the past")
      return start_date

  def is_active(self):
      today = datetime.date.today()
      return (self.status == 'active' and
              (self.end_date is None or self.end_date >= today))
  \<close>
\<close>

definition validate_start_date :: "date \<Rightarrow> date \<Rightarrow> exn + date" where
  "validate_start_date today start = (if start < today then Inl InvalidSubscriptionDateError else Inr start)"

definition is_active :: "date \<Rightarrow> subscription \<Rightarrow> bool" where
  "is_active today s =
     (status s = Some ''active'' \<and> (case end_date s of None \<Rightarrow> True | Some e \<Rightarrow> today \<le> e))"

text \<open>
  \<^verbatim>\<open>
  def create_subscription(db):
      customers = db.query(Customer).order_by(Customer.name).all()
      if not customers: return
      plans = db.query(Plan).order_by(Plan.price).all()
      if not plans: return
      cust_id = input("\nCustomer ID: ").strip()
      plan_id = input("Plan ID: ").strip()
      duration = input("Duration (months) [1]: ").strip() or "1"
      errors = validate_subscription_input(cust_id, plan_id, duration)
      if errors: return
      customer = db.get(Customer, int(cust_id))
      plan = db.get(Plan, int(plan_id))
      if not customer: return
      if not plan: return
      start_date = date.today()
      end_date = start_date + relativedelta(months=int(duration))
      try:
          subscription = Subscription(customer_id=customer.id, plan_id=plan.id,
              router_id=customer.router_id, status='active', start_date=start_date,
              end_date=end_date, created_at=datetime.now())
          db.add(subscription)
          db.commit()
      except Exception as e:
          db.rollback()
  \<close>
  The outcome \<open>Success\<close> comes with the new row as the last row of the table.
\<close>

definition create_subscription ::
  "db \<Rightarrow> date \<Rightarrow> datetime \<Rightarrow> string \<Rightarrow> string \<Rightarrow> string \<Rightarrow> exn + outcome \<times> db" where
  "create_subscription d today now cust_id plan_id_in duration_in =
     (if customers d = [] then Inr (NoCustomersAvailable, d)
      else if plans d = [] then Inr (NoPlansAvailable, d)
      else
        (let duration = (if duration_in = [] then ''1'' else duration_in) in
         case validate_subscription_input cust_id plan_id_in duration of
           Inl e \<Rightarrow> Inl e
         | Inr errors \<Rightarrow>
             if errors \<noteq> [] then Inr (ValidationErrors errors, d)
             else
               (case py_int cust_id of
                  Inl e \<Rightarrow> Inl e
                | Inr ci \<Rightarrow>
                    (case py_int plan_id_in of
                       Inl e \<Rightarrow> Inl e
                     | Inr pi \<Rightarrow>
                         (case get_customer d ci of
                            None \<Rightarrow> Inr (CustomerNotFound, d)
                          | Some customer \<Rightarrow>
                              (case get_plan d pi of
                                 None \<Rightarrow> Inr (PlanNotFound, d)
                               | Some plan \<Rightarrow>
                                   (case py_int duration of
                                      Inl e \<Rightarrow> Inl e
                                    | Inr n \<Rightarrow>
                                        (case add_months today n of
                                           Inl e \<Rightarrow> Inl e
                                         | Inr end_date' \<Rightarrow>
                                             (case validate_start_date today today of
                                                Inl e \<Rightarrow> Inr (OperationError e, d)
                                              | Inr start_date' \<Rightarrow>
                                                  (let s = \<lparr>sub_id = next_key (subscription_seq d) (map sub_id (subscriptions d)),
                                                            customer_id = Some (c_id customer),
                                                            plan_id = Some (p_id plan),
                                                            router_id = c_router_id customer,
                                                            start_date = Some start_date',
                                                            end_date = Some end_date',
                                                            status = Some ''active'',
                                                            created_at = now,
                                                            updated_at = None,
                                                            last_reminder_sent = None\<rparr>
                                                   in if subscription_constraints d s
                                                      then Inr (Success, d\<lparr>subscriptions := subscriptions d @ [s],
                                                                             subscription_seq := sub_id s\<rparr>)
                                                      else Inr (OperationError IntegrityError, d)))))))))))"

text \<open>
  \<^verbatim>\<open>
  def list_subscriptions(db, status='active'):
      query = db.query(Subscription)
      if status == 'active':
          query = query.filter(and_(Subscription.status == 'active',
              or_(Subscription.end_date == None, Subscription.end_date >= date.today())))
      elif status == 'expired':
          query = query.filter(and_(Subscription.status == 'active',
              Subscription.end_date < date.today()))
      subscriptions = query.order_by(Subscription.start_date).all()
      ...
  \<close>
  The model returns the rows of \<open>subscriptions\<close>, which the helper then prints. Rows with
  the same start date come out in table order (SQL leaves their order open).
\<close>

definition active_condition :: "date \<Rightarrow> subscription \<Rightarrow> sql_bool" where
  "active_condition today s =
     sql_and (sql_eq (status s) ''active'')
             (sql_or (sql_is_null (end_date s)) (sql_ge (end_date s) today))"

definition expired_condition :: "date \<Rightarrow> subscription \<Rightarrow> sql_bool" where
  "expired_condition today s =
     sql_and (sql_eq (status s) ''active'') (sql_lt (end_date s) today)"

definition list_subscriptions :: "db \<Rightarrow> date \<Rightarrow> string \<Rightarrow> subscription list" where
  "list_subscriptions d today status_filter =
     (let query = (if status_filter = ''active''
                   then filter (\<lambda>s. selected (active_condition today s)) (subscriptions d)
                   else if status_filter = ''expired''
                   then filter (\<lambda>s. selected (expired_condition today s)) (subscriptions d)
                   else subscriptions d)
      in sort_key start_date query)"

text \<open>
  \<^verbatim>\<open>
  def update_subscription(db):
      list_subscriptions(db, 'all')
      sub_id = input("\nEnter Subscription ID to update: ").strip()
      subscription = db.get(Subscription, int(sub_id)) if sub_id.isdigit() else None
      if not subscription: return
      choice = input("\nWhat to update? (1-2): ").strip()
      if choice == "1":
          status_choice = input("New Status (1-3): ").strip()
          status_map = {'1': 'active', '2': 'suspended', '3': 'terminated'}
          if status_choice in status_map:
              subscription.status = status_map[status_choice]
              subscription.updated_at = datetime.now()
              if status_choice == '1' and subscription.end_date and subscription.end_date < date.today():
                  extend = input("Subscription expired. Extend by how many months? ...").strip()
                  if extend.isdigit() and int(extend) > 0:
                      subscription.end_date = date.today() + relativedelta(months=int(extend))
              db.commit()
          else:
              print("Invalid choice")
      elif choice == "2":
          if not subscription.end_date: return
          months = input(...).strip()
          if not months.isdigit() or int(months) < 1: return
          subscription.end_date += relativedelta(months=int(months))
          subscription.updated_at = datetime.now()
          db.commit()
      else:
          print("Invalid choice")
  \<close>
  \<open>answer\<close> is the status choice or the number of months; \<open>extend_in\<close> is the answer to the
  question asked when an expired subscription is set active again.
\<close>

definition status_map :: "string \<Rightarrow> string option" where
  "status_map k =
     (if k = ''1'' then Some ''active'' else if k = ''2'' then Some ''suspended''
      else if k = ''3'' then Some ''terminated'' else None)"

definition update_subscription ::
  "db \<Rightarrow> date \<Rightarrow> datetime \<Rightarrow> string \<Rightarrow> string \<Rightarrow> string \<Rightarrow> string \<Rightarrow> exn + outcome \<times> db" where
  "update_subscription d today now sid choice answer extend_in =
     (case (if isdigit sid
            then (case py_int sid of Inl e \<Rightarrow> Inl e | Inr i \<Rightarrow> Inr (get_subscription d i))
            else Inr None) of
        Inl e \<Rightarrow> Inl e
      | Inr None \<Rightarrow> Inr (SubscriptionNotFound, d)
      | Inr (Some subscription) \<Rightarrow>
          if choice = ''1'' then
            (case status_map answer of
               None \<Rightarrow> Inr (InvalidChoice, d)
             | Some st \<Rightarrow>
                 (let s1 = subscription\<lparr>status := Some st, updated_at := Some now\<rparr> in
                  if answer = ''1'' \<and> (case end_date s1 of None \<Rightarrow> False | Some e \<Rightarrow> e < today)
                  then
                    (if isdigit extend_in
                     then (case py_int extend_in of
                             Inl e \<Rightarrow> Inl e
                           | Inr n \<Rightarrow>
                               if n > 0
                               then (case add_months today n of
                                       Inl e \<Rightarrow> Inl e
                                     | Inr e' \<Rightarrow> Inr (Success, put_subscription d (s1\<lparr>end_date := Some e'\<rparr>)))
                               else Inr (Success, put_subscription d s1))
                     else Inr (Success, put_subscription d s1))
                  else Inr (Success, put_subscription d s1)))
          else if choice = ''2'' then
            (case end_date subscription of
               None \<Rightarrow> Inr (CannotExtendNoEndDate, d)
             | Some e \<Rightarrow>
                 if \<not> isdigit answer then Inr (MustExtendAtLeastOneMonth, d)
                 else
                   (case py_int answer of
                      Inl ex \<Rightarrow> Inl ex
                    | Inr n \<Rightarrow>
                        if n < 1 then Inr (MustExtendAtLeastOneMonth, d)
                        else
                          (case add_months e n of
                             Inl ex \<Rightarrow> Inl ex
                           | Inr e' \<Rightarrow>
                               Inr (Success,
                                    put_subscription d (subscription\<lparr>end_date := Some e', updated_at := Some now\<rparr>)))))
          else Inr (InvalidChoice, d))"

text \<open>
  \<^verbatim>\<open>
  def check_expiring_subscriptions(db):
      today = date.today()
      deadline = today + relativedelta(days=7)
      expiring = db.query(Subscription).join(Customer).filter(
          and_(Subscription.status == 'active',
               Subscription.end_date.between(today, deadline),
               or_(Subscription.last_reminder_sent == None,
                   Subscription.last_reminder_sent < today))).all()
      if not expiring: return
      for sub in expiring:
          customer = sub.customer
          plan = sub.plan
          days_left = (sub.end_date - today).days
          print(f"\n- {customer.name}: {plan.name} expires in {days_left} days")
          if customer.email:
              sub.last_reminder_sent = today
          else: ...
      db.commit()
  \<close>
  The join keeps the subscriptions that have a customer row. \<open>plan.name\<close> raises
  AttributeError for a subscription without plan. \<open>last_reminder_sent\<close> is a DateTime
  column: the date assigned to it is stored as its midnight. The column \<open>updated_at\<close> is
  declared with \<open>onupdate=func.now()\<close>, so the commit stamps every row it updates with the
  time of the database, \<open>sql_now\<close>.
\<close>

definition expiring_condition :: "date \<Rightarrow> date \<Rightarrow> subscription \<Rightarrow> sql_bool" where
  "expiring_condition today deadline s =
     sql_and (sql_eq (status s) ''active'')
       (sql_and (sql_between (end_date s) today deadline)
          (sql_or (sql_is_null (last_reminder_sent s))
                  (sql_lt (last_reminder_sent s) (midnight today))))"

definition expiring_query :: "db \<Rightarrow> date \<Rightarrow> date \<Rightarrow> subscription list" where
  "expiring_query d today deadline =
     filter (\<lambda>s. sub_customer d s \<noteq> None \<and> selected (expiring_condition today deadline s))
       (subscriptions d)"

fun remind :: "date \<Rightarrow> datetime \<Rightarrow> subscription list \<Rightarrow> db \<Rightarrow> exn + db" where
  "remind today sql_now [] d = Inr d"
| "remind today sql_now (sub # rest) d =
     (case (sub_customer d sub, sub_plan d sub) of
        (Some customer, Some plan) \<Rightarrow>
          if c_email customer \<noteq> []
          then remind today sql_now rest
                 (put_subscription d (sub\<lparr>last_reminder_sent := Some (midnight today),
                                           updated_at := Some sql_now\<rparr>))
          else remind today sql_now rest d
      | _ \<Rightarrow> Inl AttributeError)"

definition check_expiring_subscriptions :: "db \<Rightarrow> date \<Rightarrow> datetime \<Rightarrow> exn + outcome \<times> db" where
  "check_expiring_subscriptions d today sql_now =
     (case add_days today 7 of
        Inl e \<Rightarrow> Inl e
      | Inr deadline \<Rightarrow>
          (let expiring = expiring_query d today deadline in
           if expiring = [] then Inr (NoRemindersNeeded, d)
           else (case remind today sql_now expiring d of
                   Inl e \<Rightarrow> Inl e
                 | Inr d' \<Rightarrow> Inr (Success, d'))))"


subsection \<open>The sweep in the words of the specification\<close>

text \<open>
  A subscription is due for a reminder when its status is active, its end date lies from
  today to the deadline inclusive, and no reminder was sent today or later. The customer
  of a subscription has an email on file when the customer row exists and its email is not
  empty.
\<close>

definition due_for_reminder :: "date \<Rightarrow> date \<Rightarrow> subscription \<Rightarrow> bool" where
  "due_for_reminder today deadline s =
     (status s = Some ''active'' \<and>
      (case end_date s of None \<Rightarrow> False | Some e \<Rightarrow> today \<le> e \<and> e \<le> deadline) \<and>
      (case last_reminder_sent s of None \<Rightarrow> True | Some t \<Rightarrow> t < midnight today))"

definition customer_has_email :: "db \<Rightarrow> subscription \<Rightarrow> bool" where
  "customer_has_email d s = (case sub_customer d s of None \<Rightarrow> False | Some c \<Rightarrow> c_email c \<noteq> [])"

subsection \<open>The row of a new subscription\<close>

text \<open>The row that \<open>create_subscription\<close> inserts, given the customer, the plan and the end date.\<close>

definition new_subscription :: "db \<Rightarrow> date \<Rightarrow> datetime \<Rightarrow> customer \<Rightarrow> plan \<Rightarrow> date \<Rightarrow> subscription" where
  "new_subscription d today now c p e =
     \<lparr>sub_id = next_key (subscription_seq d) (map sub_id (subscriptions d)),
      customer_id = Some (c_id c), plan_id = Some (p_id p), router_id = c_router_id c,
      start_date = Some today, end_date = Some e, status = Some ''active'',
      created_at = now, updated_at = None, last_reminder_sent = None\<rparr>"


section \<open>Example stores\<close>

text \<open>Concrete stores on which the operations are run below.\<close>

definition example_now :: datetime where
  "example_now = ((2024, 1, 31), 36000000000)"

definition empty_db :: db where
  "empty_db = \<lparr>customers = [], plans = [], subscriptions = [],
               customer_seq = 0, plan_seq = 0, subscription_seq = 0\<rparr>"

definition example_customer :: customer where
  "example_customer =
     \<lparr>c_id = 1, c_router_id = 1234567890, c_name = ''Test User'', c_email = ''test@example.com'',
      c_phone = None, c_address = None, c_created_at = example_now, c_updated_at = None\<rparr>"

definition example_plan :: plan where
  "example_plan =
     \<lparr>p_id = 1, p_name = ''Basic'', p_description = None, p_price = 500000, p_speed = ''10 Mbps'',
      p_duration_months = Some 1, p_created_at = example_now, p_updated_at = None\<rparr>"

definition example_db :: db where
  \<comment> \<open>one customer, one plan, no subscription\<close>
  "example_db = \<lparr>customers = [example_customer], plans = [example_plan], subscriptions = [],
                 customer_seq = 1, plan_seq = 1, subscription_seq = 0\<rparr>"

definition running_subscription :: subscription where
  "running_subscription =
     \<lparr>sub_id = 1, customer_id = Some 1, plan_id = Some 1, router_id = 1234567890,
      start_date = Some (2024, 1, 31), end_date = Some (2024, 2, 29), status = Some ''active'',
      created_at = example_now, updated_at = None, last_reminder_sent = None\<rparr>"

definition lapsed_subscription :: subscription where
  "lapsed_subscription =
     \<lparr>sub_id = 2, customer_id = Some 1, plan_id = Some 1, router_id = 1234568890,
      start_date = Some (2023, 12, 10), end_date = Some (2024, 1, 10), status = Some ''active'',
      created_at = example_now, updated_at = None, last_reminder_sent = None\<rparr>"

definition example_db2 :: db where
  \<comment> \<open>\<open>example_db\<close> with a subscription that runs to the end of February 2024 and one that ended in January\<close>
  "example_db2 = example_db\<lparr>subscriptions := [running_subscription, lapsed_subscription],
                             subscription_seq := 2\<rparr>"


definition example_subscription :: "date \<Rightarrow> date \<Rightarrow> datetime option \<Rightarrow> subscription" where
  \<comment> \<open>subscription 1 of the example customer, with the given start, end and time of last update\<close>
  "example_subscription start e u =
     \<lparr>sub_id = 1, customer_id = Some 1, plan_id = Some 1, router_id = 1234567890,
      start_date = Some start, end_date = Some e, status = Some ''active'',
      created_at = example_now, updated_at = u, last_reminder_sent = None\<rparr>"

definition example_db_with :: "subscription \<Rightarrow> db" where
  "example_db_with s = example_db\<lparr>subscriptions := [s], subscription_seq := 1\<rparr>"


section \<open>Properties of the validators\<close>

subsection \<open>Customer validation\<close>

lemma validate_customer_data_Nil_iff:
  "validate_customer_data name email rid = [] \<longleftrightarrow>
     name \<noteq> [] \<and> CHR ''@'' \<in> set email \<and> isdigit rid \<and> length rid = 10"
  by (auto simp: validate_customer_data_def)

text \<open>
  Claim C6, as the code has it. The customer soft validator returns a non-empty error list
  whenever the email lacks an at-sign, and it returns the empty list exactly when the name
  is non-empty, the email contains an at-sign and the router identifier consists of exactly
  10 digit characters (\<open>str.isdigit\<close>). It does not look for a dot-separated domain: that
  is left to the entity-level email check.
\<close>

theorem validate_customer_data_spec:
  "(CHR ''@'' \<notin> set email \<longrightarrow> validate_customer_data name email rid \<noteq> []) \<and>
   (validate_customer_data name email rid = [] \<longleftrightarrow>
      name \<noteq> [] \<and> CHR ''@'' \<in> set email \<and> isdigit rid \<and> length rid = 10)"
  by (auto simp: validate_customer_data_def)

theorem validate_customer_data_spec_witness:
  "CHR ''@'' \<notin> set ''invalid'' \<and>
   validate_customer_data [] ''invalid'' ''123'' =
     [''Name is required'', ''Valid email is required'', ''Router ID must be 10 digits''] \<and>
   validate_customer_data ''John Doe'' ''john@example.com'' ''1234567890'' = []"
proof -
  have a: "CHR ''@'' \<notin> set ''invalid''" by simp
  have d: "isdigit ''1234567890''"
    by (simp add: isdigit_def isdigit_char_def ascii_digit_def code_point_def)
  have "validate_customer_data [] ''invalid'' ''123'' \<noteq> []"
    using validate_customer_data_spec [of "''invalid''" "[]" "''123''"] a by blast
  moreover have "validate_customer_data ''John Doe'' ''john@example.com'' ''1234567890'' = []"
    using validate_customer_data_spec [of "''john@example.com''" "''John Doe''" "''1234567890''"] d
    by simp
  moreover have "validate_customer_data [] ''invalid'' ''123'' =
     [''Name is required'', ''Valid email is required'', ''Router ID must be 10 digits'']"
    by (simp add: validate_customer_data_def)
  ultimately show ?thesis using a by simp
qed

text \<open>
  Claim C6 as stated fails: an email with an at-sign and no dot-separated domain passes the
  soft validator.
\<close>

theorem validate_customer_data_no_domain_check:
  "validate_customer_data ''John Doe'' ''john@example'' ''1234567890'' = []"
  by (simp add: validate_customer_data_def isdigit_def isdigit_char_def ascii_digit_def code_point_def)


subsection \<open>Plan validation\<close>

text \<open>
  Claim C5 as stated fails: for the plan (x, bad, 500) the soft validator reports the
  price-range error alone. It tests the speed for emptiness only, so the list holds no
  error about the speed.
\<close>

theorem validate_plan_data_bad_speed_only_price:
  "validate_plan_data ''x'' ''bad'' ''500'' = Some [''Price must be between KES 2000-100000'']"
  by code_simp

text \<open>
  Claim C5, as the code has it. For (x, bad, 500) the soft validator returns the price-range
  error and nothing else; the format of the speed is checked by the entity-level
  \<open>validate_speed\<close>, which raises InvalidSpeedError on \<open>bad\<close> and accepts \<open>10Mbps\<close>. The
  soft validator is not fail-fast: an empty name and an empty speed are reported together
  with the price. For (basic, 10Mbps, 2500) it returns the empty list.
\<close>

theorem validate_plan_data_scenarios:
  "validate_plan_data ''x'' ''bad'' ''500'' = Some [''Price must be between KES 2000-100000''] \<and>
   validate_speed ''bad'' = Inl InvalidSpeedError \<and>
   validate_plan_data [] [] ''500'' =
     Some [''Plan name is required'', ''Speed description is required'',
           ''Price must be between KES 2000-100000''] \<and>
   validate_plan_data ''basic'' ''10Mbps'' ''2500'' = Some [] \<and>
   validate_speed ''10Mbps'' = Inr ''10Mbps''"
  by code_simp

theorem validate_plan_data_scenarios_witness:
  "validate_plan_data ''basic'' ''10Mbps'' ''2500'' = Some []"
  using validate_plan_data_scenarios by simp


subsection \<open>Phone normalisation\<close>

lemma length_10_cases:
  assumes "length p = 10"
  obtains a0 a1 a2 a3 a4 a5 a6 a7 a8 a9 where "p = [a0, a1, a2, a3, a4, a5, a6, a7, a8, a9]"
proof -
  from assms have "\<exists>a0 a1 a2 a3 a4 a5 a6 a7 a8 a9. p = [a0, a1, a2, a3, a4, a5, a6, a7, a8, a9]"
    by (auto simp add: eval_nat_numeral length_Suc_conv)
  then show ?thesis using that by blast
qed

lemma validate_phone_local_form:
  assumes "length p = 10" and "list_all ascii_digit p" and "hd p = CHR ''0''"
  shows "validate_phone (Some p) =
     (if p ! 1 = CHR ''7'' \<and> p ! 2 \<in> set ''0124789''
      then Inr (Some (''+254'' @ tl p)) else Inl InvalidPhoneError)"
proof -
  from assms(1) obtain a0 a1 a2 a3 a4 a5 a6 a7 a8 a9
    where p: "p = [a0, a1, a2, a3, a4, a5, a6, a7, a8, a9]"
    by (rule length_10_cases)
  show ?thesis using assms(2,3) unfolding p
    by (simp add: validate_phone_def phone_pattern_def)
qed

lemma validate_phone_accepted_shape:
  assumes "validate_phone ph = Inr (Some r)"
  shows "take 5 r = ''+2547'' \<and> length r = 13"
proof -
  from assms obtain p cleaned where "ph = Some p" "p \<noteq> []"
    and cl: "cleaned = filter (\<lambda>c. ascii_digit c \<or> c = CHR ''+'') p"
    and r: "r = (if take 1 cleaned = ''0'' \<and> length cleaned = 10
                 then ''+254'' @ drop 1 cleaned else cleaned)"
    and pat: "phone_pattern r"
    by (auto simp: validate_phone_def Let_def split: option.splits if_splits)
  have nl: "CHR 0x0A \<notin> set r"
    using cl r by (auto simp: ascii_digit_def code_point_def dest: in_set_dropD)
  from pat obtain c rest where t5: "take 5 r = ''+2547''" and d5: "drop 5 r = c # rest"
    and l7: "length (take 7 rest) = 7" and d7: "drop 7 rest = [] \<or> drop 7 rest = [CHR 0x0A]"
    by (auto simp: phone_pattern_def split: list.splits)
  have "set (drop 7 rest) \<subseteq> set rest" by (rule set_drop_subset)
  moreover have "set rest \<subseteq> set r" using d5 set_drop_subset [of 5 r] by auto
  ultimately have "drop 7 rest = []" using d7 nl by auto
  then have "length rest = 7" using l7 by simp
  moreover have "length (drop 5 r) = length r - 5" by simp
  ultimately have "length r = 13" using d5 by simp
  then show ?thesis using t5 by simp
qed

lemma length_13_cases:
  assumes "length p = 13"
  obtains a0 a1 a2 a3 a4 a5 a6 a7 a8 a9 b0 b1 b2
  where "p = [a0, a1, a2, a3, a4, a5, a6, a7, a8, a9, b0, b1, b2]"
proof -
  from assms have "\<exists>a0 a1 a2 a3 a4 a5 a6 a7 a8 a9 b0 b1 b2.
      p = [a0, a1, a2, a3, a4, a5, a6, a7, a8, a9, b0, b1, b2]"
    by (auto simp add: eval_nat_numeral length_Suc_conv)
  then show ?thesis using that by blast
qed

lemma phone_pattern_length:
  assumes "phone_pattern r" and "CHR 0x0A \<notin> set r"
  shows "length r = 13"
proof -
  from assms(1) obtain c rest where d5: "drop 5 r = c # rest"
    and l7: "length (take 7 rest) = 7" and d7: "drop 7 rest = [] \<or> drop 7 rest = [CHR 0x0A]"
    by (auto simp: phone_pattern_def split: list.splits)
  have "set (drop 7 rest) \<subseteq> set rest" by (rule set_drop_subset)
  moreover have "set rest \<subseteq> set r" using d5 set_drop_subset [of 5 r] by auto
  ultimately have "drop 7 rest = []" using d7 assms(2) by auto
  then have "length rest = 7" using l7 by simp
  moreover have "length (drop 5 r) = length r - 5" by simp
  ultimately show ?thesis using d5 by simp
qed

lemma phone_pattern_international:
  assumes "CHR 0x0A \<notin> set s"
  shows "phone_pattern s \<longleftrightarrow> international_form s"
proof (cases "length s = 13")
  case True
  then obtain a0 a1 a2 a3 a4 a5 a6 a7 a8 a9 b0 b1 b2
    where s: "s = [a0, a1, a2, a3, a4, a5, a6, a7, a8, a9, b0, b1, b2]"
    by (rule length_13_cases)
  show ?thesis unfolding s by (simp add: phone_pattern_def international_form_def)
next
  case False
  then show ?thesis using phone_pattern_length [OF _ assms]
    by (auto simp: international_form_def)
qed

lemma local_form_rewritten:
  assumes "take 1 c = ''0''" and "length c = 10"
  shows "phone_pattern (''+254'' @ drop 1 c) \<longleftrightarrow> local_form c"
proof -
  from assms(2) obtain a0 a1 a2 a3 a4 a5 a6 a7 a8 a9
    where c: "c = [a0, a1, a2, a3, a4, a5, a6, a7, a8, a9]"
    by (rule length_10_cases)
  from assms(1) have a0: "a0 = CHR ''0''" by (simp add: c)
  show ?thesis unfolding c a0 by (simp add: phone_pattern_def local_form_def)
qed

lemma local_form_leading_zero: "local_form c \<Longrightarrow> take 1 c = ''0'' \<and> length c = 10"
proof -
  assume l: "local_form c"
  then have "length c = 10" by (simp add: local_form_def)
  then obtain a0 a1 a2 a3 a4 a5 a6 a7 a8 a9
    where c: "c = [a0, a1, a2, a3, a4, a5, a6, a7, a8, a9]"
    by (rule length_10_cases)
  from l show ?thesis unfolding c by (simp add: local_form_def)
qed

lemma forms_exclusive: "local_form c \<Longrightarrow> \<not> international_form c"
  by (simp add: local_form_def international_form_def)


lemma validate_phone_cases:
  assumes "p \<noteq> []"
  shows "validate_phone (Some p) =
     (let c = filter (\<lambda>x. ascii_digit x \<or> x = CHR ''+'') p
      in if local_form c then Inr (Some (''+254'' @ drop 1 c))
         else if international_form c then Inr (Some c)
         else Inl InvalidPhoneError)"
proof -
  define c where "c = filter (\<lambda>x. ascii_digit x \<or> x = CHR ''+'') p"
  have nl: "CHR 0x0A \<notin> set c" by (auto simp: c_def ascii_digit_def code_point_def)
  have goal: "validate_phone (Some p) =
      (if local_form c then Inr (Some (''+254'' @ drop 1 c))
       else if international_form c then Inr (Some c) else Inl InvalidPhoneError)"
  proof (cases "take 1 c = ''0'' \<and> length c = 10")
    case True
    have v: "validate_phone (Some p) =
        (if \<not> phone_pattern (''+254'' @ drop 1 c) then Inl InvalidPhoneError
         else Inr (Some (''+254'' @ drop 1 c)))"
      using assms True by (simp add: validate_phone_def c_def [symmetric])
    have lf: "phone_pattern (''+254'' @ drop 1 c) \<longleftrightarrow> local_form c"
      using True by (intro local_form_rewritten) simp_all
    have ni: "\<not> international_form c" using True by (simp add: international_form_def)
    show ?thesis
    proof (cases "local_form c")
      case True
      with v lf show ?thesis by simp
    next
      case False
      with v lf ni show ?thesis by simp
    qed
  next
    case False
    then have nloc: "\<not> local_form c" using local_form_leading_zero [of c] by blast
    have v: "validate_phone (Some p) =
        (if \<not> phone_pattern c then Inl InvalidPhoneError else Inr (Some c))"
      using assms False by (auto simp: validate_phone_def c_def [symmetric] Let_def)
    have pi: "phone_pattern c \<longleftrightarrow> international_form c"
      using nl by (rule phone_pattern_international)
    show ?thesis
    proof (cases "international_form c")
      case True
      with v pi nloc show ?thesis by simp
    next
      case False
      with v pi nloc show ?thesis by simp
    qed
  qed
  show ?thesis unfolding Let_def c_def [symmetric] by (rule goal)
qed

text \<open>
  Claim C4 as stated fails: a 10-digit input with a leading zero is rejected when the digit
  after the zero is not 7.
\<close>

theorem validate_phone_rejects_leading_zero_input:
  "validate_phone (Some ''0123456789'') = Inl InvalidPhoneError"
  by code_simp

text \<open>
  Claim C4, as the code has it. A 10-character string of decimal digits that starts with 0
  is accepted exactly when its second character is 7 and its third is one of 0, 1, 2, 4, 7,
  8, 9; the result is then +254 followed by the last nine digits. Whatever the input, an
  accepted result starts with +2547 and has 13 characters. For an input of any other
  shape: the characters other than decimal digits and the plus sign are dropped; when what
  is left has the local form it is accepted as +254 followed by all but its first
  character, when it has the international form it is accepted as it is, and every other
  non-empty input is rejected with the invalid-phone failure (so 12345, abc and
  +254112345678 are rejected). An empty or absent phone gives no phone instead of a
  failure.
\<close>

theorem validate_phone_spec:
  "(length p = 10 \<and> list_all ascii_digit p \<and> hd p = CHR ''0'' \<longrightarrow>
      validate_phone (Some p) =
        (if p ! 1 = CHR ''7'' \<and> p ! 2 \<in> set ''0124789''
         then Inr (Some (''+254'' @ tl p)) else Inl InvalidPhoneError)) \<and>
   (validate_phone ph = Inr (Some r) \<longrightarrow> take 5 r = ''+2547'' \<and> length r = 13) \<and>
   validate_phone (Some ''+254712345678'') = Inr (Some ''+254712345678'') \<and>
   validate_phone (Some ''0712 345-678'') = Inr (Some ''+254712345678'') \<and>
   validate_phone (Some []) = Inr None \<and> validate_phone None = Inr None \<and>
   (q \<noteq> [] \<longrightarrow>
      validate_phone (Some q) =
        (let c = filter (\<lambda>x. ascii_digit x \<or> x = CHR ''+'') q
         in if local_form c then Inr (Some (''+254'' @ drop 1 c))
            else if international_form c then Inr (Some c)
            else Inl InvalidPhoneError)) \<and>
   validate_phone (Some ''12345'') = Inl InvalidPhoneError \<and>
   validate_phone (Some ''abc'') = Inl InvalidPhoneError \<and>
   validate_phone (Some ''+254112345678'') = Inl InvalidPhoneError"
proof -
  have "validate_phone (Some ''+254712345678'') = Inr (Some ''+254712345678'')" by code_simp
  moreover have "validate_phone (Some ''0712 345-678'') = Inr (Some ''+254712345678'')" by code_simp
  moreover have "validate_phone (Some []) = Inr None \<and> validate_phone None = Inr None"
    by (simp add: validate_phone_def)
  moreover have "validate_phone (Some ''12345'') = Inl InvalidPhoneError" by code_simp
  moreover have "validate_phone (Some ''abc'') = Inl InvalidPhoneError" by code_simp
  moreover have "validate_phone (Some ''+254112345678'') = Inl InvalidPhoneError" by code_simp
  ultimately show ?thesis
    using validate_phone_local_form [of p] validate_phone_accepted_shape [of ph r]
      validate_phone_cases [of q]
    by blast
qed

theorem validate_phone_spec_witness:
  "validate_phone (Some ''0712345678'') = Inr (Some ''+254712345678'') \<and>
   take 5 ''+254712345678'' = ''+2547'' \<and> length ''+254712345678'' = 13 \<and>
   validate_phone (Some ''0752345678'') = Inl InvalidPhoneError \<and>
   validate_phone (Some ''+254 (712) 345-678'') = Inr (Some ''+254712345678'') \<and>
   validate_phone (Some ''0712345678 ext 9'') = Inl InvalidPhoneError"
proof -
  have d1: "length ''0712345678'' = 10 \<and> list_all ascii_digit ''0712345678'' \<and> hd ''0712345678'' = CHR ''0''"
    by (simp add: ascii_digit_def code_point_def)
  have d2: "length ''0752345678'' = 10 \<and> list_all ascii_digit ''0752345678'' \<and> hd ''0752345678'' = CHR ''0''"
    by (simp add: ascii_digit_def code_point_def)
  have a: "validate_phone (Some ''0712345678'') = Inr (Some ''+254712345678'')"
    using validate_phone_spec [of "''0712345678''"] d1 by simp
  have b: "validate_phone (Some ''0752345678'') = Inl InvalidPhoneError"
    using validate_phone_spec [of "''0752345678''"] d2 by simp
  have "take 5 ''+254712345678'' = ''+2547'' \<and> length ''+254712345678'' = 13"
    using validate_phone_spec [of _ "Some ''0712345678''" "''+254712345678''"] a by blast
  moreover
  have e1: "(let c = filter (\<lambda>x. ascii_digit x \<or> x = CHR ''+'') ''+254 (712) 345-678''
         in if local_form c then Inr (Some (''+254'' @ drop 1 c))
            else if international_form c then Inr (Some c)
            else Inl InvalidPhoneError) = Inr (Some ''+254712345678'')"
    by code_simp
  have "validate_phone (Some ''+254 (712) 345-678'') = Inr (Some ''+254712345678'')"
    using validate_phone_spec [of _ _ _ "''+254 (712) 345-678''"] e1 by simp
  moreover
  have e2: "(let c = filter (\<lambda>x. ascii_digit x \<or> x = CHR ''+'') ''0712345678 ext 9''
         in if local_form c then Inr (Some (''+254'' @ drop 1 c))
            else if international_form c then Inr (Some c)
            else Inl InvalidPhoneError) = (Inl InvalidPhoneError :: exn + string option)"
    by code_simp
  have "validate_phone (Some ''0712345678 ext 9'') = Inl InvalidPhoneError"
    using validate_phone_spec [of _ _ _ "''0712345678 ext 9''"] e2 by simp
  ultimately show ?thesis using a b by simp
qed


section \<open>Listing subscriptions\<close>

lemma sql_and_True [simp]: "sql_and a b = Some True \<longleftrightarrow> a = Some True \<and> b = Some True"
  by (induction a b rule: sql_and.induct) auto

lemma sql_or_True [simp]: "sql_or a b = Some True \<longleftrightarrow> a = Some True \<or> b = Some True"
  by (induction a b rule: sql_or.induct) auto

lemma selected_active_condition:
  "selected (active_condition today s) \<longleftrightarrow>
     status s = Some ''active'' \<and> (case end_date s of None \<Rightarrow> True | Some e \<Rightarrow> today \<le> e)"
  by (cases "status s"; cases "end_date s")
     (auto simp: active_condition_def selected_def sql_eq_def sql_is_null_def sql_ge_def)

lemma selected_expired_condition:
  "selected (expired_condition today s) \<longleftrightarrow>
     status s = Some ''active'' \<and> (case end_date s of None \<Rightarrow> False | Some e \<Rightarrow> e < today)"
  by (cases "status s"; cases "end_date s")
     (auto simp: expired_condition_def selected_def sql_eq_def sql_lt_def)

text \<open>
  Claim C7. Listing with the filter \<open>active\<close> returns exactly the stored subscriptions whose
  status is active and whose end date is absent or not before today, each as often as it
  is stored; so it never returns a row whose end date is strictly before today. The filter
  \<open>expired\<close> returns exactly those with status active and an end date before today. The
  rows come out ordered by start date.
\<close>

theorem list_subscriptions_filters:
  "mset (list_subscriptions d today ''active'') =
     filter_mset (\<lambda>s. status s = Some ''active'' \<and>
                      (case end_date s of None \<Rightarrow> True | Some e \<Rightarrow> today \<le> e))
       (mset (subscriptions d)) \<and>
   mset (list_subscriptions d today ''expired'') =
     filter_mset (\<lambda>s. status s = Some ''active'' \<and>
                      (case end_date s of None \<Rightarrow> False | Some e \<Rightarrow> e < today))
       (mset (subscriptions d)) \<and>
   (\<forall>s e. s \<in> set (list_subscriptions d today ''active'') \<and> end_date s = Some e \<longrightarrow> \<not> e < today) \<and>
   sorted (map start_date (list_subscriptions d today ''active''))"
  by (auto simp: list_subscriptions_def selected_active_condition selected_expired_condition)

theorem list_subscriptions_filters_witness:
  "list_subscriptions example_db2 (2024, 2, 25) ''active'' = [running_subscription] \<and>
   list_subscriptions example_db2 (2024, 2, 25) ''expired'' = [lapsed_subscription] \<and>
   end_date running_subscription = Some (2024, 2, 29) \<and>
   \<not> (2024, 2, 29) < ((2024, 2, 25) :: date)"
proof -
  have a: "list_subscriptions example_db2 (2024, 2, 25) ''active'' = [running_subscription]"
    by code_simp
  have b: "list_subscriptions example_db2 (2024, 2, 25) ''expired'' = [lapsed_subscription]"
    by code_simp
  have c: "end_date running_subscription = Some (2024, 2, 29)"
    by (simp add: running_subscription_def)
  have "running_subscription \<in> set (list_subscriptions example_db2 (2024, 2, 25) ''active'')"
    using a by simp
  with c have "\<not> (2024, 2, 29) < ((2024, 2, 25) :: date)"
    using list_subscriptions_filters [of example_db2 "(2024, 2, 25)"] by blast
  with a b c show ?thesis by simp
qed

text \<open>
  Claim C10. For every subscription and every day, the model-level predicate \<open>is_active\<close>
  holds exactly when the query-level condition of the \<open>active\<close> filter selects the row; so
  a row is listed under \<open>active\<close> exactly when it is stored and \<open>is_active\<close>.
\<close>

theorem is_active_iff_listed:
  "is_active today s = selected (active_condition today s) \<and>
   (s \<in> set (list_subscriptions d today ''active'') \<longleftrightarrow>
      s \<in> set (subscriptions d) \<and> is_active today s)"
  by (auto simp: selected_active_condition is_active_def list_subscriptions_def)

theorem is_active_iff_listed_witness:
  "is_active (2024, 2, 25) running_subscription \<and>
   running_subscription \<in> set (list_subscriptions example_db2 (2024, 2, 25) ''active'') \<and>
   \<not> is_active (2024, 2, 25) lapsed_subscription \<and>
   lapsed_subscription \<notin> set (list_subscriptions example_db2 (2024, 2, 25) ''active'')"
proof -
  have a: "is_active (2024, 2, 25) running_subscription"
    by (simp add: is_active_def running_subscription_def)
  have b: "\<not> is_active (2024, 2, 25) lapsed_subscription"
    by (simp add: is_active_def lapsed_subscription_def)
  have c: "running_subscription \<in> set (subscriptions example_db2)"
    by (simp add: example_db2_def)
  show ?thesis
    using a b c
      is_active_iff_listed [of "(2024, 2, 25)" running_subscription example_db2]
      is_active_iff_listed [of "(2024, 2, 25)" lapsed_subscription example_db2]
    by blast
qed


section \<open>Deleting a plan\<close>

lemma truth_dynamic [simp]: "truth q"
  by (cases q) simp

lemma delete_plan_keeps_store:
  "delete_plan d pid confirm = Inr (out, d') \<Longrightarrow> d' = d \<and> out \<noteq> Success"
  by (auto simp: delete_plan_def split: if_splits sum.splits option.splits)

lemma delete_plan_of_stored_plan:
  assumes "isdigit pid" and "py_int pid = Inr i" and "get_plan d i = Some p"
  shows "delete_plan d pid confirm = Inr (CannotDeletePlanHasSubscriptions, d)"
  using assms by (simp add: delete_plan_def)

text \<open>
  Claim C3 on a plan without subscriptions: the store holds plan 1 and no subscription at
  all, the operator confirms with \<open>y\<close>, and the deletion is refused as if the plan had
  subscriptions; the plan stays in the store.
\<close>

theorem delete_plan_refuses_unused_plan:
  "subscriptions example_db = [] \<and>
   get_plan example_db 1 = Some example_plan \<and>
   delete_plan example_db ''1'' ''y'' = Inr (CannotDeletePlanHasSubscriptions, example_db)"
  by code_simp


section \<open>Router identifiers\<close>

text \<open>
  Claim C9 on a router identifier with a leading zero: the validator accepts the ten
  digits, the customer is created, and the identifier is stored as the integer 123456789.
  Read back as text it has nine characters, and the validator, which \<open>update_customer\<close>
  applies to that text, refuses it.
\<close>

theorem create_customer_drops_leading_zero:
  "validate_customer_data ''John Doe'' ''john@example.com'' ''0123456789'' = [] \<and>
   fst (create_customer empty_db example_now ''John Doe'' ''john@example.com'' [] ''Nairobi'' ''0123456789'')
     = Success \<and>
   stored_router_id_text
     (snd (create_customer empty_db example_now ''John Doe'' ''john@example.com'' [] ''Nairobi'' ''0123456789'')) 1
     = Some ''123456789'' \<and>
   validate_customer_data ''John Doe'' ''john@example.com'' ''123456789'' = [''Router ID must be 10 digits'']"
  by code_simp

theorem create_customer_drops_leading_zero_witness:
  "stored_router_id_text
     (snd (create_customer empty_db example_now ''John Doe'' ''john@example.com'' [] ''Nairobi'' ''0123456789'')) 1
     \<noteq> Some ''0123456789''"
  using create_customer_drops_leading_zero by simp


section \<open>Calendar months\<close>

lemma relativedelta_months_nonneg:
  "0 \<le> n \<Longrightarrow> relativedelta_months n = (n div 12, n mod 12)"
  by (auto simp: relativedelta_months_def Let_def)

lemma days_in_month_ge: "28 \<le> days_in_month a b"
  by (simp add: days_in_month_def)

lemma months_after_valid:
  assumes "valid_date (y, m, d)" and "0 \<le> n"
  shows "valid_date (months_after (y, m, d) n) \<longleftrightarrow> fst (months_after (y, m, d) n) \<le> 9999"
proof -
  define t where "t = 12 * y + (m - 1) + n"
  have "1 \<le> y" "1 \<le> m" "1 \<le> d" using assms(1) by (auto simp: valid_date_def)
  then have a: "1 \<le> t div 12" using assms(2) unfolding t_def by linarith
  have b: "1 \<le> t mod 12 + 1" "t mod 12 + 1 \<le> 12" by simp_all
  have c: "28 \<le> days_in_month (t div 12) (t mod 12 + 1)" by (rule days_in_month_ge)
  have "months_after (y, m, d) n = (t div 12, t mod 12 + 1, min d (days_in_month (t div 12) (t mod 12 + 1)))"
    by (simp add: months_after_def Let_def t_def)
  then show ?thesis using a b c \<open>1 \<le> d\<close>
    by (simp add: valid_date_def)
qed


lemma div_mod_12:
  fixes a k :: int
  assumes "0 \<le> k" and "k < 12"
  shows "(12 * a + k) div 12 = a" and "(12 * a + k) mod 12 = k"
  using assms by auto

lemma carry_months:
  fixes y m n :: int
  assumes "1 \<le> m" and "m \<le> 12" and "0 \<le> n"
  shows "(if n mod 12 \<noteq> 0
          then (if m + n mod 12 > 12 then (y + n div 12 + 1, m + n mod 12 - 12)
                else if m + n mod 12 < 1 then (y + n div 12 - 1, m + n mod 12 + 12)
                else (y + n div 12, m + n mod 12))
          else (y + n div 12, m))
         = ((12 * y + (m - 1) + n) div 12, (12 * y + (m - 1) + n) mod 12 + 1)"
proof -
  define q r where "q = n div 12" and "r = n mod 12"
  have n: "n = 12 * q + r" and r: "0 \<le> r" "r < 12" by (simp_all add: q_def r_def)
  show ?thesis
  proof (cases "m + r > 12")
    case True
    have eq: "12 * y + (m - 1) + n = 12 * (y + q + 1) + (m + r - 13)" using n by simp
    have k: "0 \<le> m + r - 13" "m + r - 13 < 12" using True r assms by simp_all
    have "(12 * y + (m - 1) + n) div 12 = y + q + 1"
      unfolding eq using k by (rule div_mod_12(1))
    moreover have "(12 * y + (m - 1) + n) mod 12 = m + r - 13"
      unfolding eq using k by (rule div_mod_12(2))
    moreover have "r \<noteq> 0" using True assms by auto
    ultimately show ?thesis using True unfolding q_def [symmetric] r_def [symmetric] by simp
  next
    case False
    have eq: "12 * y + (m - 1) + n = 12 * (y + q) + (m + r - 1)" using n by simp
    have k: "0 \<le> m + r - 1" "m + r - 1 < 12" using False r assms by simp_all
    have "(12 * y + (m - 1) + n) div 12 = y + q"
      unfolding eq using k by (rule div_mod_12(1))
    moreover have "(12 * y + (m - 1) + n) mod 12 = m + r - 1"
      unfolding eq using k by (rule div_mod_12(2))
    moreover have "\<not> m + r < 1" using r assms by simp
    ultimately show ?thesis using False unfolding q_def [symmetric] r_def [symmetric] by auto
  qed
qed

lemma add_months_months_after:
  assumes "valid_date (y, m, d)" and "0 \<le> n"
  shows "add_months (y, m, d) n =
           (if fst (months_after (y, m, d) n) \<le> 9999 then Inr (months_after (y, m, d) n)
            else Inl ValueError)"
proof -
  have m: "1 \<le> m" "m \<le> 12" using assms(1) by (auto simp: valid_date_def)
  define t where "t = 12 * y + (m - 1) + n"
  have "add_months (y, m, d) n =
      date_replace (t div 12) (t mod 12 + 1) (min (days_in_month (t div 12) (t mod 12 + 1)) d)"
    unfolding add_months_def relativedelta_months_nonneg [OF assms(2)] t_def
    by (simp only: prod.case carry_months [OF m assms(2)])
  also have "\<dots> = (if valid_date (months_after (y, m, d) n) then Inr (months_after (y, m, d) n)
                     else Inl ValueError)"
    by (simp add: date_replace_def months_after_def Let_def min.commute t_def)
  finally show ?thesis using months_after_valid [OF assms] by simp
qed

lemma months_after_months_after:
  assumes "snd (snd (months_after dt n)) = snd (snd dt)"
  shows "months_after (months_after dt n) k = months_after dt (n + k)"
proof -
  obtain y m d where dt: "dt = (y, m, d)" by (cases dt)
  define t where "t = 12 * y + (m - 1) + n"
  have t: "12 * (t div 12) + (t mod 12 + 1 - 1) + k = 12 * y + (m - 1) + (n + k)"
    by (simp add: t_def)
  have ma: "months_after dt n = (t div 12, t mod 12 + 1, min d (days_in_month (t div 12) (t mod 12 + 1)))"
    by (simp add: dt months_after_def Let_def t_def)
  with assms have d: "min d (days_in_month (t div 12) (t mod 12 + 1)) = d"
    by (simp add: dt)
  show ?thesis
    unfolding ma d unfolding months_after_def Let_def prod.case t dt ..
qed


section \<open>Creating a subscription\<close>

lemma fold_max_ge: "(a::int) \<le> fold max ks a \<and> (\<forall>k\<in>set ks. k \<le> fold max ks a)"
proof (induction ks arbitrary: a)
  case Nil
  show ?case by simp
next
  case (Cons k ks)
  from Cons [of "max k a"] show ?case by auto
qed

lemma next_key_fresh: "next_key seq keys \<notin> set keys"
  using fold_max_ge [of seq keys] by (auto simp: next_key_def)

lemma validate_subscription_input_Nil:
  "validate_subscription_input c p dur = Inr [] \<longleftrightarrow>
     isdigit c \<and> isdigit p \<and> isdigit dur \<and> (\<exists>n. py_int dur = Inr n \<and> 1 \<le> n)"
  by (auto simp: validate_subscription_input_def Let_def split: sum.splits)

lemma validate_start_date_today [simp]: "validate_start_date today today = Inr today"
  by (simp add: validate_start_date_def)

lemma create_subscription_SuccessD:
  assumes "create_subscription d today now cid pid dur_in = Inr (Success, d')"
  obtains ci pi n c p e where
    "py_int cid = Inr ci" "py_int pid = Inr pi"
    "py_int (if dur_in = [] then ''1'' else dur_in) = Inr n" "1 \<le> n"
    "get_customer d ci = Some c" "get_plan d pi = Some p"
    "add_months today n = Inr e"
    "subscription_constraints d (new_subscription d today now c p e)"
    "d' = d\<lparr>subscriptions := subscriptions d @ [new_subscription d today now c p e],
             subscription_seq := sub_id (new_subscription d today now c p e)\<rparr>"
proof -
  define dur where "dur = (if dur_in = [] then ''1'' else dur_in)"
  from assms have ne: "customers d \<noteq> []" "plans d \<noteq> []"
    by (auto simp: create_subscription_def split: if_splits)
  with assms have v: "validate_subscription_input cid pid dur = Inr []"
    by (auto simp: create_subscription_def Let_def dur_def split: if_splits sum.splits)
  then obtain n where n: "py_int dur = Inr n" "1 \<le> n"
    by (auto simp: validate_subscription_input_Nil)
  from assms ne v n obtain ci pi where i: "py_int cid = Inr ci" "py_int pid = Inr pi"
    by (cases "py_int cid"; cases "py_int pid")
       (auto simp: create_subscription_def Let_def dur_def [symmetric])
  from assms ne v n i obtain c p where g: "get_customer d ci = Some c" "get_plan d pi = Some p"
    by (cases "get_customer d ci"; cases "get_plan d pi")
       (auto simp: create_subscription_def Let_def dur_def [symmetric])
  from assms ne v n i g obtain e where e: "add_months today n = Inr e"
    by (cases "add_months today n")
       (auto simp: create_subscription_def Let_def dur_def [symmetric])
  from assms ne v n i g e have
    "subscription_constraints d (new_subscription d today now c p e) \<and>
     d' = d\<lparr>subscriptions := subscriptions d @ [new_subscription d today now c p e],
             subscription_seq := sub_id (new_subscription d today now c p e)\<rparr>"
    by (auto simp: create_subscription_def Let_def dur_def [symmetric] new_subscription_def
             split: if_splits)
  with n i g e show ?thesis using that unfolding dur_def by blast
qed

lemma create_subscription_SuccessI:
  assumes "isdigit cid" "isdigit pid" "isdigit dur"
    and "py_int cid = Inr ci" "py_int pid = Inr pi" "py_int dur = Inr n" "1 \<le> n"
    and "get_customer d ci = Some c" "get_plan d pi = Some p"
    and "add_months today n = Inr e"
    and "subscription_constraints d (new_subscription d today now c p e)"
  shows "create_subscription d today now cid pid dur =
           Inr (Success, d\<lparr>subscriptions := subscriptions d @ [new_subscription d today now c p e],
                            subscription_seq := sub_id (new_subscription d today now c p e)\<rparr>)"
proof -
  from assms(6) have dur: "dur \<noteq> []" by (auto simp: py_int_def)
  from assms(8) have c: "customers d \<noteq> []" by (auto simp: get_customer_def)
  from assms(9) have p: "plans d \<noteq> []" by (auto simp: get_plan_def)
  have v: "validate_subscription_input cid pid dur = Inr []"
    using assms by (auto simp: validate_subscription_input_Nil)
  show ?thesis
    using assms dur c p v
    by (simp add: create_subscription_def Let_def new_subscription_def)
qed


lemma add_months_Inr:
  assumes "valid_date dt" and "0 \<le> n" and "add_months dt n = Inr e"
  shows "e = months_after dt n" and "valid_date e"
proof -
  obtain y m d where dt: "dt = (y, m, d)" by (cases dt)
  from assms(3) add_months_months_after [of y m d n] assms(1,2)
  have *: "fst (months_after dt n) \<le> 9999" "e = months_after dt n"
    by (auto simp: dt split: if_splits)
  then show "e = months_after dt n" by simp
  from * months_after_valid [of y m d n] assms(1,2) show "valid_date e" by (simp add: dt)
qed

lemma months_after_later:
  assumes "valid_date dt" and "0 \<le> n"
  shows "dt \<le> months_after dt n"
proof -
  obtain y m d where dt: "dt = (y, m, d)" by (cases dt)
  define t where "t = 12 * y + (m - 1) + n"
  have v: "1 \<le> m" "m \<le> 12" "d \<le> days_in_month y m" using assms(1) by (auto simp: dt valid_date_def)
  have ma: "months_after (y, m, d) n = (t div 12, t mod 12 + 1, min d (days_in_month (t div 12) (t mod 12 + 1)))"
    by (simp add: months_after_def Let_def t_def)
  have t: "12 * (t div 12) + t mod 12 = 12 * y + (m - 1) + n" by (simp add: t_def)
  have r: "0 \<le> t mod 12" "t mod 12 < 12" by simp_all
  consider "y < t div 12" | "t div 12 = y" "m < t mod 12 + 1" | "t div 12 = y" "t mod 12 + 1 = m"
    using t r v assms(2) by linarith
  then show ?thesis
  proof cases
    case 1 then show ?thesis unfolding dt ma by simp
  next
    case 2 then show ?thesis unfolding dt ma by simp
  next
    case 3 then show ?thesis using v unfolding dt ma by auto
  qed
qed

lemma get_customer_id: "get_customer d i = Some c \<Longrightarrow> c_id c = i"
  by (auto simp: get_customer_def find_Some_iff)

lemma get_plan_id: "get_plan d i = Some p \<Longrightarrow> p_id p = i"
  by (auto simp: get_plan_def find_Some_iff)


text \<open>
  Claim C2. Let today be a date and let the duration read as the integer \<open>k\<close>, at least 1.
  Whenever \<open>create_subscription\<close> creates a subscription, the new row starts today, ends
  exactly \<open>k\<close> calendar months after today (the day of the month is kept, and cut down to
  the last day of a shorter month: \<open>months_after\<close>) and has status active. It does create
  one when the customer and the plan exist, the date reached is not beyond the year 9999,
  and the customer's router identifier satisfies the constraints of the subscriptions
  table (ten digits without leading zero, not yet used by a subscription).
\<close>

theorem create_subscription_spec:
  assumes "valid_date today"
  shows "(create_subscription d today now cid pid dur = Inr (Success, d') \<longrightarrow>
            (\<exists>s k. subscriptions d' = subscriptions d @ [s] \<and>
                   py_int (if dur = [] then ''1'' else dur) = Inr k \<and> 1 \<le> k \<and>
                   start_date s = Some today \<and> end_date s = Some (months_after today k) \<and>
                   status s = Some ''active'')) \<and>
         (isdigit cid \<and> isdigit pid \<and> isdigit dur \<and>
          py_int cid = Inr ci \<and> py_int pid = Inr pi \<and> py_int dur = Inr n \<and> 1 \<le> n \<and>
          get_customer d ci = Some c \<and> get_plan d pi = Some p \<and>
          fst (months_after today n) \<le> 9999 \<and>
          1000000000 \<le> c_router_id c \<and> c_router_id c \<le> 9999999999 \<and>
          c_router_id c \<notin> set (map router_id (subscriptions d)) \<longrightarrow>
            (\<exists>d''. create_subscription d today now cid pid dur = Inr (Success, d'')))"
proof (intro conjI impI)
  assume "create_subscription d today now cid pid dur = Inr (Success, d')"
  then obtain ci' pi' k c' p' e where
    k: "py_int (if dur = [] then ''1'' else dur) = Inr k" "1 \<le> k"
    and e: "add_months today k = Inr e"
    and d': "d' = d\<lparr>subscriptions := subscriptions d @ [new_subscription d today now c' p' e],
                     subscription_seq := sub_id (new_subscription d today now c' p' e)\<rparr>"
    by (rule create_subscription_SuccessD)
  from add_months_Inr(1) [OF assms _ e] k have "e = months_after today k" by simp
  with k d' show "\<exists>s k. subscriptions d' = subscriptions d @ [s] \<and>
                   py_int (if dur = [] then ''1'' else dur) = Inr k \<and> 1 \<le> k \<and>
                   start_date s = Some today \<and> end_date s = Some (months_after today k) \<and>
                   status s = Some ''active''"
    by (intro exI [of _ "new_subscription d today now c' p' e"] exI [of _ k])
       (simp add: new_subscription_def)
next
  assume a: "isdigit cid \<and> isdigit pid \<and> isdigit dur \<and>
          py_int cid = Inr ci \<and> py_int pid = Inr pi \<and> py_int dur = Inr n \<and> 1 \<le> n \<and>
          get_customer d ci = Some c \<and> get_plan d pi = Some p \<and>
          fst (months_after today n) \<le> 9999 \<and>
          1000000000 \<le> c_router_id c \<and> c_router_id c \<le> 9999999999 \<and>
          c_router_id c \<notin> set (map router_id (subscriptions d))"
  obtain y m dd where t: "today = (y, m, dd)" by (cases today)
  from a have e: "add_months today n = Inr (months_after today n)"
    using add_months_months_after [of y m dd n] assms by (simp add: t)
  have le: "today \<le> months_after today n" using months_after_later [OF assms, of n] a by simp
  from a have "c_id c = ci" "p_id p = pi" by (auto dest: get_customer_id get_plan_id)
  with a le have "subscription_constraints d (new_subscription d today now c p (months_after today n))"
    by (simp add: subscription_constraints_def new_subscription_def valid_statuses_def)
  with a e show "\<exists>d''. create_subscription d today now cid pid dur = Inr (Success, d'')"
    using create_subscription_SuccessI [of cid pid dur ci pi n d c p today "months_after today n" now]
    by blast
qed

theorem create_subscription_spec_witness:
  "create_subscription example_db (2024, 1, 31) example_now ''1'' ''1'' ''1'' =
     Inr (Success, example_db_with (example_subscription (2024, 1, 31) (2024, 2, 29) None)) \<and>
   months_after (2024, 1, 31) 1 = (2024, 2, 29) \<and>
   add_days (2024, 1, 31) 30 = Inr (2024, 3, 1) \<and>
   (\<exists>d'. create_subscription example_db (2024, 1, 15) example_now ''1'' ''1'' ''12'' = Inr (Success, d'))"
proof -
  have v: "valid_date (2024, 1, 31)" "valid_date (2024, 1, 15)" by code_simp+
  have c: "create_subscription example_db (2024, 1, 31) example_now ''1'' ''1'' ''1'' =
     Inr (Success, example_db_with (example_subscription (2024, 1, 31) (2024, 2, 29) None))"
    by code_simp
  have p: "py_int ''1'' = Inr 1" by code_simp
  from create_subscription_spec [OF v(1), of example_db example_now "''1''" "''1''" "''1''"
      "example_db_with (example_subscription (2024, 1, 31) (2024, 2, 29) None)"] c
  obtain s k where "subscriptions (example_db_with (example_subscription (2024, 1, 31) (2024, 2, 29) None))
        = subscriptions example_db @ [s]"
    "py_int ''1'' = Inr k" "end_date s = Some (months_after (2024, 1, 31) k)"
    by auto
  with p have m: "months_after (2024, 1, 31) 1 = (2024, 2, 29)"
    by (auto simp: example_db_with_def example_db_def example_subscription_def)
  have a: "add_days (2024, 1, 31) 30 = Inr (2024, 3, 1)" by code_simp
  have h: "isdigit ''1'' \<and> isdigit ''1'' \<and> isdigit ''12'' \<and>
          py_int ''1'' = Inr 1 \<and> py_int ''1'' = Inr 1 \<and> py_int ''12'' = Inr 12 \<and> (1::int) \<le> 12 \<and>
          get_customer example_db 1 = Some example_customer \<and> get_plan example_db 1 = Some example_plan \<and>
          fst (months_after (2024, 1, 15) 12) \<le> 9999 \<and>
          1000000000 \<le> c_router_id example_customer \<and> c_router_id example_customer \<le> 9999999999 \<and>
          c_router_id example_customer \<notin> set (map router_id (subscriptions example_db))"
    by code_simp
  have "\<exists>d'. create_subscription example_db (2024, 1, 15) example_now ''1'' ''1'' ''12'' = Inr (Success, d')"
    using create_subscription_spec [OF v(2), of example_db example_now "''1''" "''1''" "''12''" _ 1 1 12
        example_customer example_plan] h
    by blast
  with c m a show ?thesis by simp
qed


section \<open>Extending a subscription\<close>

lemma find_replaced:
  assumes "sub_id s' = i"
  shows "find (\<lambda>s. sub_id s = i) (map (\<lambda>s. if sub_id s = i then s' else s) xs) =
           (if i \<in> sub_id ` set xs then Some s' else None)"
  using assms by (induction xs) auto

lemma get_subscription_put:
  assumes "get_subscription d (sub_id s') \<noteq> None"
  shows "get_subscription (put_subscription d s') (sub_id s') = Some s'"
proof -
  from assms obtain x where "x \<in> set (subscriptions d)" "sub_id x = sub_id s'"
    by (auto simp: get_subscription_def find_None_iff)
  then have "sub_id s' \<in> sub_id ` set (subscriptions d)" by (metis imageI)
  then show ?thesis
    by (simp add: get_subscription_def put_subscription_def find_replaced)
qed

lemma find_snoc_fresh:
  "\<forall>x\<in>set xs. \<not> P x \<Longrightarrow> P y \<Longrightarrow> find P (xs @ [y]) = Some y"
  by (induction xs) auto

lemma get_subscription_appended:
  assumes "i \<notin> sub_id ` set (subscriptions d)" and "sub_id s = i"
  shows "get_subscription (d\<lparr>subscriptions := subscriptions d @ [s], subscription_seq := k\<rparr>) i = Some s"
proof -
  from assms(1) have "\<forall>x\<in>set (subscriptions d). \<not> sub_id x = i" by auto
  then show ?thesis using assms(2) by (simp add: get_subscription_def find_snoc_fresh)
qed

lemma update_subscription_extendD:
  assumes "update_subscription d today now sid ''2'' months ext = Inr (Success, d')"
  obtains i s e n e' where
    "isdigit sid" "py_int sid = Inr i" "get_subscription d i = Some s" "end_date s = Some e"
    "isdigit months" "py_int months = Inr n" "1 \<le> n" "add_months e n = Inr e'"
    "d' = put_subscription d (s\<lparr>end_date := Some e', updated_at := Some now\<rparr>)"
proof -
  from assms have sd: "isdigit sid"
    by (auto simp: update_subscription_def split: if_splits)
  with assms obtain i where i: "py_int sid = Inr i"
    by (cases "py_int sid") (auto simp: update_subscription_def)
  with assms sd obtain s where s: "get_subscription d i = Some s"
    by (cases "get_subscription d i") (auto simp: update_subscription_def)
  with assms sd i obtain e where e: "end_date s = Some e"
    by (cases "end_date s") (auto simp: update_subscription_def)
  with assms sd i s have md: "isdigit months"
    by (auto simp: update_subscription_def split: if_splits)
  with assms sd i s e obtain n where n: "py_int months = Inr n"
    by (cases "py_int months") (auto simp: update_subscription_def)
  with assms sd i s e md have n1: "1 \<le> n"
    by (auto simp: update_subscription_def split: if_splits)
  with assms sd i s e md n obtain e' where e': "add_months e n = Inr e'"
    by (cases "add_months e n") (auto simp: update_subscription_def)
  with assms sd i s e md n n1
  have "d' = put_subscription d (s\<lparr>end_date := Some e', updated_at := Some now\<rparr>)"
    by (auto simp: update_subscription_def)
  with sd i s e md n n1 e' show ?thesis using that by blast
qed

text \<open>
  Claim C1 as stated fails, because of the cut to the end of the month. A subscription
  created on 2024-01-31 for one month ends on 2024-02-29; extended by one month it ends on
  2024-03-29, but created for two months it ends on 2024-03-31.
\<close>

theorem extend_after_create_clamped:
  "create_subscription example_db (2024, 1, 31) example_now ''1'' ''1'' ''1'' =
     Inr (Success, example_db_with (example_subscription (2024, 1, 31) (2024, 2, 29) None)) \<and>
   update_subscription (example_db_with (example_subscription (2024, 1, 31) (2024, 2, 29) None))
       (2024, 1, 31) example_now ''1'' ''2'' ''1'' [] =
     Inr (Success, example_db_with (example_subscription (2024, 1, 31) (2024, 3, 29) (Some example_now))) \<and>
   create_subscription example_db (2024, 1, 31) example_now ''1'' ''1'' ''2'' =
     Inr (Success, example_db_with (example_subscription (2024, 1, 31) (2024, 3, 31) None))"
  by code_simp

text \<open>
  Claim C1, as the code has it. A subscription is created on the date \<open>D\<close> for \<open>N\<close>
  months and then extended by \<open>M\<close> months, and its end date at creation falls on the same
  day of the month as \<open>D\<close> (nothing was cut off, as is always the case for a day up to the
  28th). Then its end date after the extension is the end date of a subscription created on
  \<open>D\<close> for \<open>N + M\<close> months, namely \<open>N + M\<close> calendar months after \<open>D\<close>.
\<close>

theorem extend_after_create:
  assumes "valid_date D"
    and "create_subscription d D now cid pid dN = Inr (Success, d1)"
    and "update_subscription d1 today' now' sid ''2'' dM ext = Inr (Success, d2)"
    and "create_subscription d D now cid pid dNM = Inr (Success, d3)"
    and "py_int sid = Inr (sub_id (last (subscriptions d1)))"
    and "py_int dN = Inr N" and "py_int dM = Inr M" and "py_int dNM = Inr (N + M)"
    and "map_option day_of (end_date (last (subscriptions d1))) = Some (day_of D)"
  shows "map_option end_date (get_subscription d2 (sub_id (last (subscriptions d1)))) =
           Some (end_date (last (subscriptions d3))) \<and>
         end_date (last (subscriptions d3)) = Some (months_after D (N + M))"
proof -
  from assms(6) have dN: "dN \<noteq> []" by (auto simp: py_int_def)
  from assms(8) have dNM: "dNM \<noteq> []" by (auto simp: py_int_def)
  from assms(2) obtain c1 p1 e1 where
    N: "1 \<le> N" and e1: "add_months D N = Inr e1"
    and d1: "d1 = d\<lparr>subscriptions := subscriptions d @ [new_subscription d D now c1 p1 e1],
                     subscription_seq := sub_id (new_subscription d D now c1 p1 e1)\<rparr>"
    using assms(6) dN by (elim create_subscription_SuccessD) auto
  define s1 where "s1 = new_subscription d D now c1 p1 e1"
  have last1: "last (subscriptions d1) = s1" by (simp add: d1 s1_def)
  have e1m: "e1 = months_after D N" and e1v: "valid_date e1"
    using add_months_Inr [OF assms(1) _ e1] N by simp_all
  have fresh: "sub_id s1 \<notin> sub_id ` set (subscriptions d)"
    using next_key_fresh [of "subscription_seq d" "map sub_id (subscriptions d)"]
    by (simp add: s1_def new_subscription_def)
  have g1: "get_subscription d1 (sub_id s1) = Some s1"
    unfolding d1 s1_def [symmetric] using fresh by (rule get_subscription_appended) simp
  have end1: "end_date s1 = Some e1" by (simp add: s1_def new_subscription_def)
  from assms(3) obtain i s e n e2 where
    u: "py_int sid = Inr i" "get_subscription d1 i = Some s" "end_date s = Some e"
       "py_int dM = Inr n" "1 \<le> n" "add_months e n = Inr e2"
       "d2 = put_subscription d1 (s\<lparr>end_date := Some e2, updated_at := Some now'\<rparr>)"
    by (rule update_subscription_extendD)
  from u(1) assms(5) have "i = sub_id s1" by (simp add: last1)
  with u(2) g1 have "s = s1" by simp
  with u(3) end1 have "e = e1" by simp
  from u(4) assms(7) have "n = M" by simp
  from u(5) \<open>n = M\<close> have M: "1 \<le> M" by simp
  from u(6) \<open>n = M\<close> \<open>e = e1\<close> have e2: "add_months e1 M = Inr e2" by simp
  from u(7) \<open>s = s1\<close>
  have d2: "d2 = put_subscription d1 (s1\<lparr>end_date := Some e2, updated_at := Some now'\<rparr>)" by simp
  have e2m: "e2 = months_after e1 M" using add_months_Inr(1) [OF e1v _ e2] M by simp
  have day: "day_of e1 = day_of D"
    using assms(9) by (simp add: last1 end1)
  have e2': "e2 = months_after D (N + M)"
    unfolding e2m e1m using day months_after_months_after [of D N M]
    by (simp add: e1m day_of_def)
  have g2: "get_subscription d2 (sub_id s1) =
              Some (s1\<lparr>end_date := Some e2, updated_at := Some now'\<rparr>)"
    unfolding d2 using get_subscription_put [of d1 "s1\<lparr>end_date := Some e2, updated_at := Some now'\<rparr>"] g1
    by simp
  from assms(4) obtain c3 p3 e3 where
    e3: "add_months D (N + M) = Inr e3"
    and d3: "d3 = d\<lparr>subscriptions := subscriptions d @ [new_subscription d D now c3 p3 e3],
                     subscription_seq := sub_id (new_subscription d D now c3 p3 e3)\<rparr>"
    using assms(8) dNM by (elim create_subscription_SuccessD) auto
  have e3m: "e3 = months_after D (N + M)"
    using add_months_Inr(1) [OF assms(1) _ e3] N M by simp
  have "end_date (last (subscriptions d3)) = Some e3"
    by (simp add: d3 new_subscription_def)
  with g2 e2' e3m show ?thesis by (simp add: last1)
qed

theorem extend_after_create_witness:
  "create_subscription example_db (2024, 1, 15) example_now ''1'' ''1'' ''1'' =
     Inr (Success, example_db_with (example_subscription (2024, 1, 15) (2024, 2, 15) None)) \<and>
   update_subscription (example_db_with (example_subscription (2024, 1, 15) (2024, 2, 15) None))
       (2024, 2, 1) example_now ''1'' ''2'' ''2'' [] =
     Inr (Success, example_db_with (example_subscription (2024, 1, 15) (2024, 4, 15) (Some example_now))) \<and>
   create_subscription example_db (2024, 1, 15) example_now ''1'' ''1'' ''3'' =
     Inr (Success, example_db_with (example_subscription (2024, 1, 15) (2024, 4, 15) None)) \<and>
   months_after (2024, 1, 15) (1 + 2) = (2024, 4, 15)"
proof -
  have v: "valid_date (2024, 1, 15)" by code_simp
  have c1: "create_subscription example_db (2024, 1, 15) example_now ''1'' ''1'' ''1'' =
     Inr (Success, example_db_with (example_subscription (2024, 1, 15) (2024, 2, 15) None))"
    by code_simp
  have u: "update_subscription (example_db_with (example_subscription (2024, 1, 15) (2024, 2, 15) None))
       (2024, 2, 1) example_now ''1'' ''2'' ''2'' [] =
     Inr (Success, example_db_with (example_subscription (2024, 1, 15) (2024, 4, 15) (Some example_now)))"
    by code_simp
  have c3: "create_subscription example_db (2024, 1, 15) example_now ''1'' ''1'' ''3'' =
     Inr (Success, example_db_with (example_subscription (2024, 1, 15) (2024, 4, 15) None))"
    by code_simp
  have i: "py_int ''1'' = Inr (sub_id (last (subscriptions
             (example_db_with (example_subscription (2024, 1, 15) (2024, 2, 15) None)))))"
    by code_simp
  have p: "py_int ''1'' = Inr 1" "py_int ''2'' = Inr 2" "py_int ''3'' = Inr (1 + 2)" by code_simp+
  have d: "map_option day_of (end_date (last (subscriptions
             (example_db_with (example_subscription (2024, 1, 15) (2024, 2, 15) None))))) =
           Some (day_of (2024, 1, 15))"
    by code_simp
  have "end_date (last (subscriptions
          (example_db_with (example_subscription (2024, 1, 15) (2024, 4, 15) None)))) =
        Some (months_after (2024, 1, 15) (1 + 2))"
    using extend_after_create [OF v c1 u c3 i p d] by simp
  then have "months_after (2024, 1, 15) (1 + 2) = (2024, 4, 15)"
    by (simp add: example_db_with_def example_db_def example_subscription_def)
  with c1 u c3 show ?thesis by simp
qed


section \<open>The expiring sweep\<close>

lemma sql_eq_True: "sql_eq col v = Some True \<longleftrightarrow> col = Some v"
  by (cases col) (auto simp: sql_eq_def)

lemma sql_lt_True: "sql_lt col v = Some True \<longleftrightarrow> (case col of None \<Rightarrow> False | Some x \<Rightarrow> x < v)"
  by (cases col) (auto simp: sql_lt_def)

lemma sql_is_null_True: "sql_is_null col = Some True \<longleftrightarrow> col = None"
  by (simp add: sql_is_null_def)

lemma sql_between_True:
  "sql_between col lo hi = Some True \<longleftrightarrow> (case col of None \<Rightarrow> False | Some x \<Rightarrow> lo \<le> x \<and> x \<le> hi)"
  by (cases col) (auto simp: sql_between_def sql_ge_def)

lemma selected_expiring_condition:
  "selected (expiring_condition today deadline s) \<longleftrightarrow> due_for_reminder today deadline s"
  unfolding selected_def expiring_condition_def due_for_reminder_def
    sql_and_True sql_or_True sql_eq_True sql_lt_True sql_is_null_True sql_between_True
  by (cases "last_reminder_sent s") simp_all

lemma expiring_query_due:
  assumes "db_ok d"
  shows "expiring_query d today deadline = filter (due_for_reminder today deadline) (subscriptions d)"
  unfolding expiring_query_def
  using assms by (intro filter_cong) (auto simp: db_ok_def list_all_iff selected_expiring_condition)

lemma sub_customer_cong: "customers d' = customers d \<Longrightarrow> sub_customer d' s = sub_customer d s"
  by (simp add: sub_customer_def get_customer_def split: option.splits)

lemma sub_plan_cong: "plans d' = plans d \<Longrightarrow> sub_plan d' s = sub_plan d s"
  by (simp add: sub_plan_def get_plan_def split: option.splits)

lemma customer_has_email_cong:
  "customers d' = customers d \<Longrightarrow> customer_has_email d' s = customer_has_email d s"
  using sub_customer_cong [of d' d s] by (simp add: customer_has_email_def)

lemma put_subscription_distinct:
  assumes "distinct (map sub_id (subscriptions d))" and "x \<in> set (subscriptions d)"
    and "sub_id x' = sub_id x"
  shows "put_subscription d x' =
           d\<lparr>subscriptions := map (\<lambda>s. if s = x then x' else s) (subscriptions d)\<rparr>"
proof -
  have "\<And>s. s \<in> set (subscriptions d) \<Longrightarrow> (sub_id s = sub_id x') = (s = x)"
    using assms by (auto simp: distinct_map inj_on_def)
  then have "map (\<lambda>s. if sub_id s = sub_id x' then x' else s) (subscriptions d) =
             map (\<lambda>s. if s = x then x' else s) (subscriptions d)"
    by (intro map_cong) auto
  then show ?thesis by (simp add: put_subscription_def)
qed

lemma remind_result:
  assumes "distinct (map sub_id (subscriptions d))"
    and "set xs \<subseteq> set (subscriptions d)" and "distinct xs"
    and "\<forall>s\<in>set xs. sub_customer d s \<noteq> None \<and> sub_plan d s \<noteq> None"
  shows "remind today sql_now xs d =
           Inr (d\<lparr>subscriptions :=
                    map (\<lambda>s. if s \<in> set xs \<and> customer_has_email d s
                             then s\<lparr>last_reminder_sent := Some (midnight today), updated_at := Some sql_now\<rparr>
                             else s)
                      (subscriptions d)\<rparr>)"
  using assms
proof (induction xs arbitrary: d)
  case Nil
  then show ?case by simp
next
  case (Cons x xs)
  let ?upd = "\<lambda>s::subscription. s\<lparr>last_reminder_sent := Some (midnight today), updated_at := Some sql_now\<rparr>"
  from Cons.prems obtain c p where cp: "sub_customer d x = Some c" "sub_plan d x = Some p"
    by auto
  have xin: "x \<in> set (subscriptions d)" and xs: "set xs \<subseteq> set (subscriptions d)"
    and xnot: "x \<notin> set xs" and dxs: "distinct xs"
    using Cons.prems by auto
  show ?case
  proof (cases "c_email c \<noteq> []")
    case False
    then have ne: "\<not> customer_has_email d x" by (simp add: customer_has_email_def cp)
    have "remind today sql_now (x # xs) d = remind today sql_now xs d"
      using False cp by simp
    also have "\<dots> = Inr (d\<lparr>subscriptions :=
                    map (\<lambda>s. if s \<in> set xs \<and> customer_has_email d s then ?upd s else s)
                      (subscriptions d)\<rparr>)"
      using Cons.prems xs dxs by (intro Cons.IH) auto
    also have "map (\<lambda>s. if s \<in> set xs \<and> customer_has_email d s then ?upd s else s) (subscriptions d) =
               map (\<lambda>s. if s \<in> set (x # xs) \<and> customer_has_email d s then ?upd s else s) (subscriptions d)"
      using ne by (intro map_cong) auto
    finally show ?thesis .
  next
    case True
    then have he: "customer_has_email d x" by (simp add: customer_has_email_def cp)
    define d1 where "d1 = put_subscription d (?upd x)"
    have d1: "d1 = d\<lparr>subscriptions := map (\<lambda>s. if s = x then ?upd x else s) (subscriptions d)\<rparr>"
      unfolding d1_def using Cons.prems(1) xin by (rule put_subscription_distinct) simp
    have ids: "map sub_id (subscriptions d1) = map sub_id (subscriptions d)"
      by (simp add: d1 comp_def if_distrib [of sub_id] cong: if_cong)
    have cust: "customers d1 = customers d" "plans d1 = plans d" by (simp_all add: d1)
    have sub1: "set xs \<subseteq> set (subscriptions d1)"
    proof
      fix s assume "s \<in> set xs"
      then have "s \<in> set (subscriptions d)" "s \<noteq> x" using xs xnot by auto
      then show "s \<in> set (subscriptions d1)" by (force simp: d1)
    qed
    have updnot: "?upd x \<notin> set xs"
    proof
      assume "?upd x \<in> set xs"
      then have "?upd x \<in> set (subscriptions d)" "?upd x \<noteq> x" using xs xnot by auto
      moreover have "sub_id (?upd x) = sub_id x" by simp
      ultimately show False using Cons.prems(1) xin
        by (auto simp: distinct_map inj_on_def)
    qed
    have "remind today sql_now (x # xs) d = remind today sql_now xs d1"
      using True cp by (simp add: d1_def)
    also have "\<dots> = Inr (d1\<lparr>subscriptions :=
                    map (\<lambda>s. if s \<in> set xs \<and> customer_has_email d1 s then ?upd s else s)
                      (subscriptions d1)\<rparr>)"
      using Cons.prems sub1 dxs ids cust
      by (intro Cons.IH) (auto simp: sub_customer_cong [OF cust(1)] sub_plan_cong [OF cust(2)])
    also have "d1\<lparr>subscriptions :=
                    map (\<lambda>s. if s \<in> set xs \<and> customer_has_email d1 s then ?upd s else s)
                      (subscriptions d1)\<rparr> =
               d\<lparr>subscriptions :=
                    map (\<lambda>s. if s \<in> set (x # xs) \<and> customer_has_email d s then ?upd s else s)
                      (subscriptions d)\<rparr>"
    proof -
      have sd1: "subscriptions d1 = map (\<lambda>s. if s = x then ?upd x else s) (subscriptions d)"
        by (simp add: d1)
      have "map (\<lambda>s. if s \<in> set xs \<and> customer_has_email d1 s then ?upd s else s) (subscriptions d1) =
            map (\<lambda>s. if s \<in> set (x # xs) \<and> customer_has_email d s then ?upd s else s) (subscriptions d)"
        unfolding sd1 map_map comp_def
      proof (rule map_cong [OF refl])
        fix s assume "s \<in> set (subscriptions d)"
        show "(if (if s = x then ?upd x else s) \<in> set xs \<and>
                  customer_has_email d1 (if s = x then ?upd x else s)
               then ?upd (if s = x then ?upd x else s) else (if s = x then ?upd x else s)) =
              (if s \<in> set (x # xs) \<and> customer_has_email d s then ?upd s else s)"
        proof (cases "s = x")
          case True
          then show ?thesis using updnot he by simp
        next
          case False
          then show ?thesis using customer_has_email_cong [OF cust(1), of s] by simp
        qed
      qed
      then show ?thesis by (simp add: d1)
    qed
    finally show ?thesis .
  qed
qed


text \<open>
  Claim C8 as stated fails in its last part: the sweep also changes \<open>updated_at\<close> of the
  subscriptions it flags. In the example the running subscription, never updated before,
  carries the time of the sweep afterwards.
\<close>

theorem check_expiring_subscriptions_touches_updated_at:
  "updated_at running_subscription = None \<and>
   check_expiring_subscriptions example_db2 (2024, 2, 25) ((2024, 2, 25), 36000000005) =
     Inr (Success,
          example_db2\<lparr>subscriptions :=
            [running_subscription\<lparr>last_reminder_sent := Some ((2024, 2, 25), 0),
                                   updated_at := Some ((2024, 2, 25), 36000000005)\<rparr>,
             lapsed_subscription]\<rparr>)"
  by code_simp

text \<open>
  Claim C8, as the code has it. In a store whose subscriptions all have their customer and
  their plan, and for a day with a seventh day after it, the sweep selects exactly the
  subscriptions with status active, an end date from today to seven days later inclusive,
  and a last reminder that is absent or strictly before today. Each selected subscription
  whose customer has an email gets today (its midnight) as last reminder and the time of
  the database as \<open>updated_at\<close>; no other field of it changes, and no other subscription,
  customer or plan changes at all.
\<close>

theorem check_expiring_subscriptions_spec:
  assumes "db_ok d" and "add_days today 7 = Inr deadline"
  shows "expiring_query d today deadline = filter (due_for_reminder today deadline) (subscriptions d) \<and>
         (\<exists>out. check_expiring_subscriptions d today sql_now =
            Inr (out,
                 d\<lparr>subscriptions :=
                     map (\<lambda>s. if due_for_reminder today deadline s \<and> customer_has_email d s
                              then s\<lparr>last_reminder_sent := Some (midnight today),
                                     updated_at := Some sql_now\<rparr>
                              else s)
                       (subscriptions d)\<rparr>))"
proof
  let ?upd = "\<lambda>s::subscription. s\<lparr>last_reminder_sent := Some (midnight today), updated_at := Some sql_now\<rparr>"
  let ?xs = "filter (due_for_reminder today deadline) (subscriptions d)"
  show q: "expiring_query d today deadline = ?xs"
    using assms(1) by (rule expiring_query_due)
  have ids: "distinct (map sub_id (subscriptions d))" using assms(1) by (simp add: db_ok_def)
  then have dist: "distinct ?xs" by (simp add: distinct_map)
  have refs: "\<forall>s\<in>set ?xs. sub_customer d s \<noteq> None \<and> sub_plan d s \<noteq> None"
    using assms(1) by (simp add: db_ok_def list_all_iff)
  have r: "remind today sql_now ?xs d =
           Inr (d\<lparr>subscriptions :=
                    map (\<lambda>s. if s \<in> set ?xs \<and> customer_has_email d s then ?upd s else s)
                      (subscriptions d)\<rparr>)"
    using ids _ dist refs by (rule remind_result) simp
  have m: "map (\<lambda>s. if s \<in> set ?xs \<and> customer_has_email d s then ?upd s else s) (subscriptions d) =
           map (\<lambda>s. if due_for_reminder today deadline s \<and> customer_has_email d s then ?upd s else s)
             (subscriptions d)"
    by (rule map_cong [OF refl]) simp
  show "\<exists>out. check_expiring_subscriptions d today sql_now =
            Inr (out, d\<lparr>subscriptions :=
                     map (\<lambda>s. if due_for_reminder today deadline s \<and> customer_has_email d s
                              then ?upd s else s) (subscriptions d)\<rparr>)"
  proof (cases "?xs = []")
    case True
    then have "\<forall>s\<in>set (subscriptions d). \<not> due_for_reminder today deadline s"
      by (simp add: filter_empty_conv)
    then have "map (\<lambda>s. if due_for_reminder today deadline s \<and> customer_has_email d s
                          then ?upd s else s) (subscriptions d) = subscriptions d"
      by (intro map_idI) simp
    then show ?thesis using True
      by (simp add: check_expiring_subscriptions_def assms(2) q)
  next
    case False
    then show ?thesis using r
      by (simp add: check_expiring_subscriptions_def assms(2) q m)
  qed
qed

theorem check_expiring_subscriptions_spec_witness:
  "db_ok example_db2 \<and> add_days (2024, 2, 25) 7 = Inr (2024, 3, 3) \<and>
   expiring_query example_db2 (2024, 2, 25) (2024, 3, 3) = [running_subscription] \<and>
   customer_has_email example_db2 running_subscription \<and>
   \<not> due_for_reminder (2024, 2, 25) (2024, 3, 3) lapsed_subscription"
proof -
  have ok: "db_ok example_db2" by code_simp
  have dl: "add_days (2024, 2, 25) 7 = Inr (2024, 3, 3)" by code_simp
  have f: "filter (due_for_reminder (2024, 2, 25) (2024, 3, 3)) (subscriptions example_db2) =
           [running_subscription]"
    by code_simp
  have e: "customer_has_email example_db2 running_subscription" by code_simp
  have l: "\<not> due_for_reminder (2024, 2, 25) (2024, 3, 3) lapsed_subscription" by code_simp
  have "expiring_query example_db2 (2024, 2, 25) (2024, 3, 3) = [running_subscription]"
    using check_expiring_subscriptions_spec [OF ok dl] f by simp
  with ok dl e l show ?thesis by simp
qed

end
